theory Spec2Isabelle
  imports Main "HOL-Library.Sublist" "HOL-Library.AList"
begin

section \<open>Decimal rendering of numbers\<close>

text \<open>
  Template literals such as \<^verbatim>\<open>`${port}.json`\<close> and \<^verbatim>\<open>`${days}d`\<close> render a
  JavaScript number in decimal. All numbers of this development are integers
  (process ids, ports, whole seconds), so the rendering is the usual digit string, with a
  leading minus sign for a negative number.
\<close>

definition digit_char :: "nat \<Rightarrow> char" where
  "digit_char d = ''0123456789'' ! d"

definition digit_val :: "char \<Rightarrow> nat" where
  "digit_val c = length (takeWhile (\<lambda>x. x \<noteq> c) ''0123456789'')"

fun show_nat :: "nat \<Rightarrow> string" where
  "show_nat n = (if n < 10 then [digit_char n] else show_nat (n div 10) @ [digit_char (n mod 10)])"

declare show_nat.simps [simp del]

definition show_int :: "int \<Rightarrow> string" where
  "show_int i = (if i < 0 then CHR ''-'' # show_nat (nat (- i)) else show_nat (nat i))"

definition read_nat :: "string \<Rightarrow> nat" where
  "read_nat s = foldl (\<lambda>a c. 10 * a + digit_val c) 0 s"

section \<open>Uptime rendering (instance-registry.ts, formatUptime)\<close>

text \<open>
  \<^verbatim>\<open>formatUptime(startedAt)\<close> first evaluates \<^verbatim>\<open>new Date(startedAt).getTime()\<close>. That
  library call is represented by its result: the milliseconds since the epoch of a
  timestamp that parses, or \<^verbatim>\<open>NaN\<close> for a string that is no timestamp. The current time
  \<^verbatim>\<open>Date.now()\<close> is the first argument.
\<close>

datatype js_time = NaN | Millis int

definition formatUptime :: "int \<Rightarrow> js_time \<Rightarrow> string" where
  "formatUptime now startedAt =
     (case startedAt of
        NaN \<Rightarrow> ''NaNs''
      | Millis start \<Rightarrow>
          (let diffMs = now - start in
           if diffMs < 0 then ''0s''
           else
             (let seconds = diffMs div 1000;
                  minutes = seconds div 60;
                  hours = minutes div 60;
                  days = hours div 24
              in if days > 0 then show_int days @ ''d '' @ show_int (hours mod 24) @ ''h''
                 else if hours > 0 then show_int hours @ ''h '' @ show_int (minutes mod 60) @ ''m''
                 else if minutes > 0 then show_int minutes @ ''m''
                 else show_int seconds @ ''s'')))"

text \<open>
  The rendering as the specification words it, over the elapsed milliseconds: whole
  seconds below a minute, whole minutes below an hour, hours and minutes below a day,
  days and hours from then on, and \<open>0s\<close> for a negative elapsed time.
\<close>

definition uptime_spec :: "int \<Rightarrow> string" where
  "uptime_spec elapsed =
     (if elapsed < 0 then ''0s''
      else if elapsed < 60 * 1000 then show_int (elapsed div 1000) @ ''s''
      else if elapsed < 60 * 60 * 1000 then show_int (elapsed div (60 * 1000)) @ ''m''
      else if elapsed < 24 * 60 * 60 * 1000 then
        show_int (elapsed div (60 * 60 * 1000)) @ ''h '' @
        show_int ((elapsed div (60 * 1000)) mod 60) @ ''m''
      else
        show_int (elapsed div (24 * 60 * 60 * 1000)) @ ''d '' @
        show_int ((elapsed div (60 * 60 * 1000)) mod 24) @ ''h'')"

section \<open>Errors\<close>

text \<open>
  Every exception of the source is a value. \<open>Error\<close> is \<^verbatim>\<open>new Error(message)\<close>, thrown
  by the program itself; \<open>SystemError\<close> is the exception of a failed file-system call with
  its error code; \<open>TypeError\<close> is a property read on \<^verbatim>\<open>null\<close>; \<open>BadPort\<close> is the range
  error of \<^verbatim>\<open>server.listen\<close> on a number that is no port.
\<close>

datatype errno = EEXIST | ENOENT | ESRCH

datatype js_error = Error string | SystemError errno | TypeError | BadPort nat

section \<open>Port selection (port-selection.ts)\<close>

text \<open>
  The network is the predicate telling which loopback ports can be bound at the moment.
  \<^verbatim>\<open>isPortAvailable\<close> binds and releases; \<^verbatim>\<open>listen\<close> rejects a number above 65535
  before binding anything. Every probe is appended to a log, so that the ports actually
  scanned can be compared with what an error message reports.
\<close>

type_synonym net = "nat \<Rightarrow> bool"

definition isPortAvailable :: "net \<Rightarrow> nat \<Rightarrow> nat list \<Rightarrow> (js_error + bool) \<times> nat list" where
  "isPortAvailable free port probes =
     (if port > 65535 then (Inl (BadPort port), probes) else (Inr (free port), probes @ [port]))"

record PortSelectionResult =
  port :: nat
  cdpPort :: nat
  wasAutoSelected :: bool
  requestedPort :: nat

definition en_dash :: string where
  "en_dash = [CHR 0xE2, CHR 0x80, CHR 0x93]"

definition exhausted_message :: "nat \<Rightarrow> nat \<Rightarrow> int \<Rightarrow> string" where
  "exhausted_message maxAttempts requested lastTried =
     ''Could not find an available port pair after '' @ show_nat maxAttempts @ '' attempts '' @
     ''(tried '' @ show_nat requested @ en_dash @ show_int lastTried @
     ''). Specify an explicit --port.''"

definition port_in_use_message :: "nat \<Rightarrow> string" where
  "port_in_use_message p =
     ''Port '' @ show_nat p @ '' is already in use. Specify a different --port.''"

definition cdp_port_in_use_message :: "nat \<Rightarrow> string" where
  "cdp_port_in_use_message p =
     ''CDP port '' @ show_nat p @ '' is already in use. Specify a different --cdp-port.''"

text \<open>
  The \<^verbatim>\<open>for\<close> loop of the auto-selection path, with its two loop variables \<open>attempt\<close>
  and \<open>candidate\<close>. Leaving the loop, by the bound or by \<^verbatim>\<open>break\<close>, reaches the
  \<^verbatim>\<open>throw\<close> after it, which reads \<open>candidate\<close> as the loop left it.
\<close>

function auto_select ::
  "net \<Rightarrow> nat \<Rightarrow> nat \<Rightarrow> nat \<Rightarrow> nat \<Rightarrow> nat list \<Rightarrow> (js_error + PortSelectionResult) \<times> nat list" where
  "auto_select free requested maxAttempts attempt candidate probes =
     (if attempt < maxAttempts then
        (let cdpCandidate = candidate + 1 in
         if candidate > 65535 \<or> cdpCandidate > 65535 then
           (Inl (Error (exhausted_message maxAttempts requested (int candidate - 2))), probes)
         else
           (case isPortAvailable free candidate probes of
              (Inl e, probes1) \<Rightarrow> (Inl e, probes1)
            | (Inr httpFree, probes1) \<Rightarrow>
                (case isPortAvailable free cdpCandidate probes1 of
                   (Inl e, probes2) \<Rightarrow> (Inl e, probes2)
                 | (Inr cdpFree, probes2) \<Rightarrow>
                     if httpFree \<and> cdpFree then
                       (Inr \<lparr>port = candidate, cdpPort = cdpCandidate,
                             wasAutoSelected = (candidate \<noteq> requested),
                             requestedPort = requested\<rparr>, probes2)
                     else auto_select free requested maxAttempts (attempt + 1) (candidate + 2) probes2)))
      else (Inl (Error (exhausted_message maxAttempts requested (int candidate - 2))), probes))"
  by pat_completeness auto
termination
  by (relation "measure (\<lambda>(free, requested, maxAttempts, attempt, candidate, probes). maxAttempts - attempt)")
     auto

declare auto_select.simps [simp del]

text \<open>
  An omitted argument is \<open>None\<close>: the requested port defaults to 9222 and the attempt
  bound to 20. The result comes with the log of the ports probed.
\<close>

definition findAvailablePort ::
  "net \<Rightarrow> nat option \<Rightarrow> nat option \<Rightarrow> nat option \<Rightarrow> (js_error + PortSelectionResult) \<times> nat list" where
  "findAvailablePort free requestedPortArg requestedCdpPort maxAttemptsArg =
     (let requested = (case requestedPortArg of None \<Rightarrow> 9222 | Some p \<Rightarrow> p);
          maxAttempts = (case maxAttemptsArg of None \<Rightarrow> 20 | Some m \<Rightarrow> m)
      in case requestedCdpPort of
           Some cdp \<Rightarrow>
             (case isPortAvailable free requested [] of
                (Inl e, probes1) \<Rightarrow> (Inl e, probes1)
              | (Inr httpFree, probes1) \<Rightarrow>
                  (case isPortAvailable free cdp probes1 of
                     (Inl e, probes2) \<Rightarrow> (Inl e, probes2)
                   | (Inr cdpFree, probes2) \<Rightarrow>
                       if \<not> httpFree then (Inl (Error (port_in_use_message requested)), probes2)
                       else if \<not> cdpFree then (Inl (Error (cdp_port_in_use_message cdp)), probes2)
                       else (Inr \<lparr>port = requested, cdpPort = cdp, wasAutoSelected = False,
                                  requestedPort = requested\<rparr>, probes2)))
         | None \<Rightarrow> auto_select free requested maxAttempts 0 requested [])"

text \<open>The ports of \<open>n\<close> consecutive candidate pairs from \<open>c\<close> on, in the order probed.\<close>

fun scanned_pairs :: "nat \<Rightarrow> nat \<Rightarrow> nat list" where
  "scanned_pairs c 0 = []"
| "scanned_pairs c (Suc n) = c # (c + 1) # scanned_pairs (c + 2) n"

text \<open>A port is free when the probe of the program reports it available.\<close>

definition port_free :: "net \<Rightarrow> nat \<Rightarrow> bool" where
  "port_free free p = (fst (isPortAvailable free p []) = Inr True)"

definition pair_free :: "net \<Rightarrow> nat \<Rightarrow> bool" where
  "pair_free free p = (port_free free p \<and> port_free free (p + 1))"

text \<open>A network for a concrete run: ports 9222 and 9225 are taken, every other is free.\<close>

definition net_example :: net where
  "net_example q = (q \<noteq> 9222 \<and> q \<noteq> 9225)"

section \<open>JSON documents\<close>

text \<open>
  \<^verbatim>\<open>JSON.parse\<close> and \<^verbatim>\<open>JSON.stringify\<close> belong to the runtime, not to the program. A
  file is therefore represented by what \<^verbatim>\<open>JSON.parse\<close> makes of its text: a document, or
  \<open>Corrupt\<close> when the text is rejected (or the node cannot be read as a file at all).
  Numbers are integers. An object is the list of its properties, keys distinct.
  A value that may be \<^verbatim>\<open>undefined\<close> is an option.
\<close>

datatype json =
    JNull
  | JBool bool
  | JNum int
  | JStr string
  | JArr "json list"
  | JObj "(string \<times> json) list"

datatype contents = Corrupt | Doc json

type_synonym jsval = "json option"

text \<open>
  Reading one of the properties this program reads (\<open>pid\<close>, \<open>port\<close>, \<open>startedAt\<close>,
  \<open>chromePid\<close>): a type error on \<^verbatim>\<open>null\<close>, \<^verbatim>\<open>undefined\<close> on any value that is not an
  object or lacks the key.
\<close>

definition get_prop :: "json \<Rightarrow> string \<Rightarrow> js_error + jsval" where
  "get_prop j k = (case j of JNull \<Rightarrow> Inl TypeError | JObj fs \<Rightarrow> Inr (map_of fs k) | _ \<Rightarrow> Inr None)"

definition join_comma :: "string list \<Rightarrow> string" where
  "join_comma xs = (case xs of [] \<Rightarrow> [] | y # ys \<Rightarrow> y @ concat (map (\<lambda>z. CHR '','' # z) ys))"

text \<open>A value inside a template literal: JavaScript's string conversion.\<close>

fun js_string :: "json \<Rightarrow> string" where
  "js_string JNull = ''null''"
| "js_string (JBool b) = (if b then ''true'' else ''false'')"
| "js_string (JNum n) = show_int n"
| "js_string (JStr s) = s"
| "js_string (JArr xs) = join_comma (map (\<lambda>x. if x = JNull then [] else js_string x) xs)"
| "js_string (JObj fs) = ''[object Object]''"

definition template :: "jsval \<Rightarrow> string" where
  "template v = (case v of None \<Rightarrow> ''undefined'' | Some j \<Rightarrow> js_string j)"

section \<open>Profile lock (profile-lock.ts)\<close>

text \<open>
  The lock record \<^verbatim>\<open>{ pid, port, startedAt }\<close>. Record fields share one name space in
  Isabelle, so the fields of \<open>LockInfo\<close> carry the prefix \<open>l_\<close>. \<^verbatim>\<open>readLock\<close> checks
  that \<open>pid\<close> and \<open>port\<close> are numbers and nothing about \<open>startedAt\<close>, which is therefore
  whatever the file holds, or \<^verbatim>\<open>undefined\<close>.
\<close>

record LockInfo =
  l_pid :: int
  l_port :: int
  l_startedAt :: jsval

text \<open>
  The part of the machine a lock acquisition touches: the profile directory, which is
  missing or present, the node at \<^verbatim>\<open>.dev-browser.lock\<close> inside it, absent or a file, and
  the set of ids of the running processes, which is what \<^verbatim>\<open>process.kill(pid, 0)\<close>
  consults.
\<close>

datatype dir_state = NoDir | Dir "contents option"

record world =
  lock_dir :: dir_state
  procs :: "int set"

definition lock_node :: "world \<Rightarrow> contents option" where
  "lock_node w = (case lock_dir w of NoDir \<Rightarrow> None | Dir n \<Rightarrow> n)"

text \<open>
  Other processes run between the system calls of this one. The run state holds a
  schedule of what they do: before each system call the next action of the schedule, if
  any is left, is applied to the world. The empty schedule is a run without interference.
  Each system call is recorded in the trace together with what it observed.
\<close>

datatype event =
    Mkdir
  | Exists bool
  | Read "contents option"
  | Probe int bool
  | Unlink bool
  | CreateExcl "errno option"
  | ConsoleLog string

record run_state =
  world :: world
  others :: "(world \<Rightarrow> world) list"
  trace :: "event list"

definition yield :: "run_state \<Rightarrow> run_state" where
  "yield s = (case others s of [] \<Rightarrow> s | f # fs \<Rightarrow> s\<lparr>world := f (world s), others := fs\<rparr>)"

definition emit :: "event \<Rightarrow> run_state \<Rightarrow> run_state" where
  "emit e s = s\<lparr>trace := trace s @ [e]\<rparr>"

definition mkdirSync :: "run_state \<Rightarrow> run_state" where
  "mkdirSync s =
     (let s1 = yield s; w = world s1
      in emit Mkdir (s1\<lparr>world := w\<lparr>lock_dir := (case lock_dir w of NoDir \<Rightarrow> Dir None | Dir n \<Rightarrow> Dir n)\<rparr>\<rparr>))"

definition existsSync :: "run_state \<Rightarrow> bool \<times> run_state" where
  "existsSync s =
     (let s1 = yield s; b = (lock_node (world s1) \<noteq> None)
      in (b, emit (Exists b) s1))"

definition readFileSync :: "run_state \<Rightarrow> (js_error + contents) \<times> run_state" where
  "readFileSync s =
     (let s1 = yield s; n = lock_node (world s1)
      in ((case n of None \<Rightarrow> Inl (SystemError ENOENT) | Some c \<Rightarrow> Inr c), emit (Read n) s1))"

definition unlinkSync :: "run_state \<Rightarrow> errno option \<times> run_state" where
  "unlinkSync s =
     (let s1 = yield s; w = world s1
      in case lock_node w of
           None \<Rightarrow> (Some ENOENT, emit (Unlink False) s1)
         | Some c \<Rightarrow> (None, emit (Unlink True) (s1\<lparr>world := w\<lparr>lock_dir := Dir None\<rparr>\<rparr>)))"

text \<open>\<^verbatim>\<open>writeFileSync(path, text, { flag: "wx" })\<close>: create the file, fail if it exists.\<close>

definition writeFileSync_wx :: "contents \<Rightarrow> run_state \<Rightarrow> errno option \<times> run_state" where
  "writeFileSync_wx c s =
     (let s1 = yield s; w = world s1
      in case lock_dir w of
           NoDir \<Rightarrow> (Some ENOENT, emit (CreateExcl (Some ENOENT)) s1)
         | Dir (Some old) \<Rightarrow> (Some EEXIST, emit (CreateExcl (Some EEXIST)) s1)
         | Dir None \<Rightarrow> (None, emit (CreateExcl None) (s1\<lparr>world := w\<lparr>lock_dir := Dir (Some c)\<rparr>\<rparr>)))"

text \<open>\<^verbatim>\<open>isProcessRunning\<close>: signal 0 tests existence and delivers nothing.\<close>

definition isProcessRunning :: "int \<Rightarrow> run_state \<Rightarrow> bool \<times> run_state" where
  "isProcessRunning p s =
     (let s1 = yield s; b = (p \<in> procs (world s1))
      in (b, emit (Probe p b) s1))"

definition console_log :: "string \<Rightarrow> run_state \<Rightarrow> run_state" where
  "console_log msg s = emit (ConsoleLog msg) s"

text \<open>
  The validation of \<^verbatim>\<open>readLock\<close> on a parsed document: a value whose \<open>pid\<close> and
  \<open>port\<close> are numbers passes; \<^verbatim>\<open>null\<close> (a type error, caught) and everything else give
  \<^verbatim>\<open>null\<close>.
\<close>

definition lock_of_json :: "json \<Rightarrow> LockInfo option" where
  "lock_of_json data =
     (case (get_prop data ''pid'', get_prop data ''port'', get_prop data ''startedAt'') of
        (Inr (Some (JNum p)), Inr (Some (JNum q)), Inr t) \<Rightarrow>
          Some \<lparr>l_pid = p, l_port = q, l_startedAt = t\<rparr>
      | _ \<Rightarrow> None)"

text \<open>The body of the \<^verbatim>\<open>try\<close> block after the read: parse, then validate.\<close>

definition parse_lock :: "contents \<Rightarrow> LockInfo option" where
  "parse_lock c = (case c of Corrupt \<Rightarrow> None | Doc data \<Rightarrow> lock_of_json data)"

definition readLock :: "run_state \<Rightarrow> LockInfo option \<times> run_state" where
  "readLock s =
     (case existsSync s of
        (False, s1) \<Rightarrow> (None, s1)
      | (True, s1) \<Rightarrow>
          (case readFileSync s1 of
             (Inl e, s2) \<Rightarrow> (None, s2)
           | (Inr c, s2) \<Rightarrow> (parse_lock c, s2)))"

definition removeLock :: "run_state \<Rightarrow> run_state" where
  "removeLock s = snd (unlinkSync s)"

text \<open>\<^verbatim>\<open>JSON.stringify(lockData, null, 2) + "\n"\<close>, as the document it parses to.\<close>

definition lock_json :: "LockInfo \<Rightarrow> json" where
  "lock_json l =
     JObj ([(''pid'', JNum (l_pid l)), (''port'', JNum (l_port l))] @
           (case l_startedAt l of None \<Rightarrow> [] | Some t \<Rightarrow> [(''startedAt'', t)]))"

definition dquote :: string where
  "dquote = [CHR 0x22]"

definition locked_message :: "string \<Rightarrow> LockInfo \<Rightarrow> string" where
  "locked_message profileDir existing =
     ''Profile directory '' @ dquote @ profileDir @ dquote @ '' is locked by another instance '' @
     ''(PID '' @ show_int (l_pid existing) @ '', port '' @ show_int (l_port existing) @
     '', started '' @ template (l_startedAt existing) @ ''). '' @
     ''Use a different --profile-dir or stop the other instance first.''"

definition just_locked_message :: "string \<Rightarrow> LockInfo \<Rightarrow> string" where
  "just_locked_message profileDir winner =
     ''Profile directory '' @ dquote @ profileDir @ dquote @ '' was just locked by PID '' @
     show_int (l_pid winner) @ '' on port '' @ show_int (l_port winner) @ ''.''"

definition stale_message :: "LockInfo \<Rightarrow> string" where
  "stale_message existing =
     ''Removing stale profile lock (PID '' @ show_int (l_pid existing) @ '' is no longer running)''"

text \<open>
  The second and last exclusive create, inside the \<^verbatim>\<open>catch\<close> block: no handler is
  around it, so its exception leaves \<^verbatim>\<open>acquireProfileLock\<close> as it is.
\<close>

definition retry_create :: "contents \<Rightarrow> run_state \<Rightarrow> (js_error + unit) \<times> run_state" where
  "retry_create doc s =
     (let s1 = removeLock s
      in case writeFileSync_wx doc s1 of
           (None, s2) \<Rightarrow> (Inr (), s2)
         | (Some e, s2) \<Rightarrow> (Inl (SystemError e), s2))"

text \<open>
  The \<^verbatim>\<open>try\<close>/\<^verbatim>\<open>catch\<close> around the first exclusive create (lines 262 to 280 of the
  source): on \<open>EEXIST\<close> the lock is read again; a winner that is running is reported,
  any other outcome leads to the single retry. Any other error code is thrown again.
\<close>

definition create_lock :: "string \<Rightarrow> contents \<Rightarrow> run_state \<Rightarrow> (js_error + unit) \<times> run_state" where
  "create_lock profileDir doc s =
     (case writeFileSync_wx doc s of
        (None, s1) \<Rightarrow> (Inr (), s1)
      | (Some EEXIST, s1) \<Rightarrow>
          (case readLock s1 of
             (Some winner, s2) \<Rightarrow>
               (case isProcessRunning (l_pid winner) s2 of
                  (True, s3) \<Rightarrow> (Inl (Error (just_locked_message profileDir winner)), s3)
                | (False, s3) \<Rightarrow> retry_create doc s3)
           | (None, s2) \<Rightarrow> retry_create doc s2)
      | (Some e, s1) \<Rightarrow> (Inl (SystemError e), s1))"

text \<open>
  \<^verbatim>\<open>acquireProfileLock(profileDir, port)\<close>, run by the process \<open>self\<close>
  (\<^verbatim>\<open>process.pid\<close>) at the time \<open>now\<close> (\<^verbatim>\<open>new Date().toISOString()\<close>). The
  argument \<open>port\<close> is written \<open>lockPort\<close>, \<open>port\<close> being a record field already.
\<close>

definition acquireProfileLock ::
  "int \<Rightarrow> string \<Rightarrow> string \<Rightarrow> int \<Rightarrow> run_state \<Rightarrow> (js_error + unit) \<times> run_state" where
  "acquireProfileLock self now profileDir lockPort s =
     (let s1 = mkdirSync s;
          lockData = \<lparr>l_pid = self, l_port = lockPort, l_startedAt = Some (JStr now)\<rparr>;
          doc = Doc (lock_json lockData)
      in case readLock s1 of
           (Some existing, s2) \<Rightarrow>
             (case isProcessRunning (l_pid existing) s2 of
                (True, s3) \<Rightarrow> (Inl (Error (locked_message profileDir existing)), s3)
              | (False, s3) \<Rightarrow>
                  create_lock profileDir doc (removeLock (console_log (stale_message existing) s3)))
         | (None, s2) \<Rightarrow> create_lock profileDir doc s2)"

text \<open>A run that starts in world \<open>w\<close> with the schedule \<open>sch\<close> of the other processes.\<close>

definition start :: "world \<Rightarrow> (world \<Rightarrow> world) list \<Rightarrow> run_state" where
  "start w sch = \<lparr>world = w, others = sch, trace = []\<rparr>"

definition creates :: "event list \<Rightarrow> nat" where
  "creates evs = length (filter (\<lambda>e. case e of CreateExcl r \<Rightarrow> True | _ \<Rightarrow> False) evs)"

text \<open>
  The conflict errors are the two errors that \<^verbatim>\<open>acquireProfileLock\<close> builds itself and
  that describe the holder of the lock. An exception of the file system is none.
\<close>

definition conflict_error :: "js_error \<Rightarrow> bool" where
  "conflict_error e = (case e of Error msg \<Rightarrow> True | _ \<Rightarrow> False)"

text \<open>
  Worlds and schedules for concrete runs: a lock written by process \<open>p\<close> for port 9222, a
  process that takes the lock, and the schedule in which one process takes the lock just
  before the first exclusive create of the run and another just before the second.
\<close>

definition lock_doc :: "int \<Rightarrow> contents" where
  "lock_doc p = Doc (lock_json \<lparr>l_pid = p, l_port = 9222, l_startedAt = Some (JStr ''2026-01-01T00:00:00Z'')\<rparr>)"

definition takes_lock :: "int \<Rightarrow> world \<Rightarrow> world" where
  "takes_lock p w = w\<lparr>lock_dir := Dir (Some (lock_doc p))\<rparr>"

definition world_locked :: "int \<Rightarrow> int set \<Rightarrow> world" where
  "world_locked p ps = \<lparr>lock_dir = Dir (Some (lock_doc p)), procs = ps\<rparr>"

definition world_unlocked :: "int set \<Rightarrow> world" where
  "world_unlocked ps = \<lparr>lock_dir = Dir None, procs = ps\<rparr>"

definition world_corrupt :: world where
  "world_corrupt = \<lparr>lock_dir = Dir (Some Corrupt), procs = {}\<rparr>"

definition double_race :: "(world \<Rightarrow> world) list" where
  "double_race = [id, id, takes_lock 77, id, id, id, id, takes_lock 78]"

section \<open>Instance registry and process control (instance-registry.ts)\<close>

text \<open>
  The instance record. The fields carry the prefix \<open>i_\<close>; a field that may be
  \<^verbatim>\<open>undefined\<close> is an option. \<^verbatim>\<open>JSON.stringify\<close> leaves out a property whose value is
  \<^verbatim>\<open>undefined\<close>.
\<close>

datatype mode = Launch | Relay

record InstanceInfo =
  i_pid :: int
  i_port :: int
  i_cdpPort :: int
  i_mode :: mode
  i_label :: string
  i_headless :: bool
  i_startedAt :: string
  i_profileDir :: "string option"
  i_chromePid :: "int option"

definition instance_json :: "InstanceInfo \<Rightarrow> json" where
  "instance_json info =
     JObj ([(''pid'', JNum (i_pid info)), (''port'', JNum (i_port info)),
            (''cdpPort'', JNum (i_cdpPort info)),
            (''mode'', JStr (case i_mode info of Launch \<Rightarrow> ''launch'' | Relay \<Rightarrow> ''relay'')),
            (''label'', JStr (i_label info)), (''headless'', JBool (i_headless info)),
            (''startedAt'', JStr (i_startedAt info))] @
           (case i_profileDir info of None \<Rightarrow> [] | Some d \<Rightarrow> [(''profileDir'', JStr d)]) @
           (case i_chromePid info of None \<Rightarrow> [] | Some c \<Rightarrow> [(''chromePid'', JNum c)]))"

text \<open>
  The machine as the registry and the stop path see it: the directory
  \<^verbatim>\<open>~/.dev-browser-skill/instances\<close>, missing or a list of named files; the ids for
  which \<^verbatim>\<open>process.kill\<close> finds a process; how a process reacts to a signal (whether it has
  exited when the program looks next); the runtime's conversion of a string to a number,
  \<open>number_of\<close>, which gives the integer a string denotes and nothing for a string that
  denotes no integer; every call of \<^verbatim>\<open>process.kill\<close> made so far, in order and with its
  arguments, whether or not it reached a process; the console. The registry promises
  nothing under concurrent writers, so its operations are modelled as running alone.
\<close>

datatype signal = Sig0 | SIGTERM | SIGKILL

record machine =
  registry :: "(string \<times> contents) list option"
  alive :: "int set"
  exits_on :: "int \<Rightarrow> signal \<Rightarrow> bool"
  number_of :: "string \<Rightarrow> int option"
  kills :: "(jsval \<times> signal) list"
  console :: "string list"

definition entries :: "machine \<Rightarrow> (string \<times> contents) list" where
  "entries m = (case registry m of None \<Rightarrow> [] | Some es \<Rightarrow> es)"

definition ensureDir :: "machine \<Rightarrow> machine" where
  "ensureDir m = m\<lparr>registry := Some (entries m)\<rparr>"

definition endsWith :: "string \<Rightarrow> string \<Rightarrow> bool" where
  "endsWith s suf = suffix suf s"

text \<open>
  The file name of \<^verbatim>\<open>instancePath(port)\<close> inside the directory. At run time the argument
  is whatever value the caller read, so it is rendered as a template literal renders it.
\<close>

definition instancePath :: "jsval \<Rightarrow> string" where
  "instancePath v = template v @ ''.json''"

definition write_file :: "string \<Rightarrow> contents \<Rightarrow> machine \<Rightarrow> errno option \<times> machine" where
  "write_file name c m =
     (case registry m of
        None \<Rightarrow> (Some ENOENT, m)
      | Some es \<Rightarrow> (None, m\<lparr>registry := Some (AList.update name c es)\<rparr>))"

definition read_file :: "string \<Rightarrow> machine \<Rightarrow> errno + contents" where
  "read_file name m = (case map_of (entries m) name of None \<Rightarrow> Inl ENOENT | Some c \<Rightarrow> Inr c)"

definition unlink_file :: "string \<Rightarrow> machine \<Rightarrow> errno option \<times> machine" where
  "unlink_file name m =
     (case map_of (entries m) name of
        None \<Rightarrow> (Some ENOENT, m)
      | Some c \<Rightarrow> (None, m\<lparr>registry := Some (AList.delete name (entries m))\<rparr>))"

definition registerInstance :: "InstanceInfo \<Rightarrow> machine \<Rightarrow> (js_error + unit) \<times> machine" where
  "registerInstance info m =
     (case write_file (instancePath (Some (JNum (i_port info)))) (Doc (instance_json info)) (ensureDir m) of
        (None, m1) \<Rightarrow> (Inr (), m1)
      | (Some e, m1) \<Rightarrow> (Inl (SystemError e), m1))"

definition unregisterInstance :: "jsval \<Rightarrow> machine \<Rightarrow> machine" where
  "unregisterInstance p m = snd (unlink_file (instancePath p) m)"

text \<open>
  \<^verbatim>\<open>process.kill(pid, signal)\<close> of the runtime. It throws its argument error unless
  \<^verbatim>\<open>pid == (pid | 0)\<close>, that is, unless the value converts to a 32-bit integer: a number
  in that range, a boolean, a string that denotes such a number, an array whose string
  form does. \<^verbatim>\<open>null\<close>, \<^verbatim>\<open>undefined\<close> and an object do not. \<open>kill_target\<close> is the
  process id the call then addresses.
\<close>

definition int32 :: "int \<Rightarrow> bool" where
  "int32 n = (- 2147483648 \<le> n \<and> n \<le> 2147483647)"

definition kill_target :: "(string \<Rightarrow> int option) \<Rightarrow> jsval \<Rightarrow> int option" where
  "kill_target num v =
     (case v of
        None \<Rightarrow> None
      | Some JNull \<Rightarrow> None
      | Some (JBool b) \<Rightarrow> Some (if b then 1 else 0)
      | Some (JNum n) \<Rightarrow> (if int32 n then Some n else None)
      | Some (JStr t) \<Rightarrow>
          (case num t of None \<Rightarrow> None | Some n \<Rightarrow> if int32 n then Some n else None)
      | Some (JArr xs) \<Rightarrow>
          (case num (js_string (JArr xs)) of
             None \<Rightarrow> None
           | Some n \<Rightarrow> if int32 n then Some n else None)
      | Some (JObj fs) \<Rightarrow> None)"

text \<open>
  The call is logged before anything else. It fails with \<open>ESRCH\<close> when no process has
  the id. Signal 0 tests existence and delivers nothing; any other signal is delivered,
  and a process that exits on it is gone when the program looks next.
\<close>

definition process_kill :: "jsval \<Rightarrow> signal \<Rightarrow> machine \<Rightarrow> (js_error + unit) \<times> machine" where
  "process_kill v sig m =
     (let m1 = m\<lparr>kills := kills m @ [(v, sig)]\<rparr>
      in case kill_target (number_of m) v of
           None \<Rightarrow> (Inl TypeError, m1)
         | Some p \<Rightarrow>
             if p \<in> alive m then
               (Inr (), if sig \<noteq> Sig0 \<and> exits_on m p sig then m1\<lparr>alive := alive m - {p}\<rparr> else m1)
             else (Inl (SystemError ESRCH), m1))"

text \<open>
  \<^verbatim>\<open>isProcessRunning\<close> again, over the machine of the registry and for a value read from
  a file: the \<^verbatim>\<open>try\<close> around \<^verbatim>\<open>process.kill(pid, 0)\<close> turns every exception into
  \<^verbatim>\<open>false\<close>.
\<close>

definition pid_running :: "jsval \<Rightarrow> machine \<Rightarrow> bool \<times> machine" where
  "pid_running v m =
     (case process_kill v Sig0 m of
        (Inr u, m1) \<Rightarrow> (True, m1)
      | (Inl e, m1) \<Rightarrow> (False, m1))"

text \<open>What \<open>pid_running\<close> answers, as a property of the machine and the value.\<close>

definition reachable :: "machine \<Rightarrow> jsval \<Rightarrow> bool" where
  "reachable m v = (case kill_target (number_of m) v of None \<Rightarrow> False | Some p \<Rightarrow> p \<in> alive m)"

text \<open>
  The loop of \<^verbatim>\<open>listInstances\<close> over the names \<^verbatim>\<open>readdirSync\<close> returned: a name
  without the suffix is skipped, a file that cannot be read or parsed is skipped, every
  other document is pushed as it is (the cast to \<^verbatim>\<open>InstanceInfo\<close> checks nothing).
\<close>

fun collect :: "machine \<Rightarrow> string list \<Rightarrow> json list" where
  "collect m [] = []"
| "collect m (file # files) =
     (if \<not> endsWith file ''.json'' then collect m files
      else case read_file file m of
             Inr (Doc info) \<Rightarrow> info # collect m files
           | _ \<Rightarrow> collect m files)"

text \<open>
  The comparator \<^verbatim>\<open>(a, b) => a.port - b.port\<close>. Reading \<open>port\<close> of \<^verbatim>\<open>null\<close> throws. A
  difference that involves a port that is no number counts as \<^verbatim>\<open>NaN\<close>, which a sort
  treats as 0; the coercion JavaScript applies to such a port is outside this model.
\<close>

definition compare_port :: "json \<Rightarrow> json \<Rightarrow> js_error + int" where
  "compare_port a b =
     (case get_prop a ''port'' of
        Inl e \<Rightarrow> Inl e
      | Inr pa \<Rightarrow>
          (case get_prop b ''port'' of
             Inl e \<Rightarrow> Inl e
           | Inr pb \<Rightarrow>
               (case (pa, pb) of
                  (Some (JNum x), Some (JNum y)) \<Rightarrow> Inr (x - y)
                | _ \<Rightarrow> Inr 0)))"

text \<open>
  \<^verbatim>\<open>results.sort(...)\<close> is stable; which pairs it compares is left to the engine. The
  model is insertion sort, which is stable and, as any sort of two or more elements must,
  hands every element to the comparator. An exception of the comparator leaves the sort
  and \<^verbatim>\<open>listInstances\<close>, which has no handler around it.
\<close>

fun insert_by_port :: "json \<Rightarrow> json list \<Rightarrow> js_error + json list" where
  "insert_by_port x [] = Inr [x]"
| "insert_by_port x (y # ys) =
     (case compare_port x y of
        Inl e \<Rightarrow> Inl e
      | Inr d \<Rightarrow>
          if d \<le> 0 then Inr (x # y # ys)
          else (case insert_by_port x ys of Inl e \<Rightarrow> Inl e | Inr zs \<Rightarrow> Inr (y # zs)))"

fun sort_by_port :: "json list \<Rightarrow> js_error + json list" where
  "sort_by_port [] = Inr []"
| "sort_by_port (x # xs) =
     (case sort_by_port xs of Inl e \<Rightarrow> Inl e | Inr ys \<Rightarrow> insert_by_port x ys)"

definition listInstances :: "machine \<Rightarrow> (js_error + json list) \<times> machine" where
  "listInstances m =
     (let m1 = ensureDir m;
          files = map fst (entries m1);
          results = collect m1 files
      in (sort_by_port results, m1))"

text \<open>
  The loop of \<^verbatim>\<open>cleanStaleInstances\<close> with its accumulator \<open>stale\<close>. Reading \<open>pid\<close> of
  \<^verbatim>\<open>null\<close> throws.
\<close>

fun clean_loop :: "json list \<Rightarrow> json list \<Rightarrow> machine \<Rightarrow> (js_error + json list) \<times> machine" where
  "clean_loop [] stale m = (Inr stale, m)"
| "clean_loop (info # rest) stale m =
     (case get_prop info ''pid'' of
        Inl e \<Rightarrow> (Inl e, m)
      | Inr p \<Rightarrow>
          (case pid_running p m of
             (False, m1) \<Rightarrow>
               (case get_prop info ''port'' of
                  Inl e \<Rightarrow> (Inl e, m1)
                | Inr q \<Rightarrow> clean_loop rest (stale @ [info]) (unregisterInstance q m1))
           | (True, m1) \<Rightarrow> clean_loop rest stale m1))"

definition cleanStaleInstances :: "machine \<Rightarrow> (js_error + json list) \<times> machine" where
  "cleanStaleInstances m =
     (case listInstances m of
        (Inl e, m1) \<Rightarrow> (Inl e, m1)
      | (Inr all, m1) \<Rightarrow> clean_loop all [] m1)"

text \<open>\<^verbatim>\<open>getInstance\<close>: the parsed document, or \<^verbatim>\<open>null\<close> when reading or parsing fails.\<close>

definition getInstance :: "int \<Rightarrow> machine \<Rightarrow> json" where
  "getInstance p m =
     (case read_file (instancePath (Some (JNum p))) m of
        Inr (Doc info) \<Rightarrow> info
      | _ \<Rightarrow> JNull)"

text \<open>What \<^verbatim>\<open>if (v)\<close> and \<^verbatim>\<open>v && ...\<close> test.\<close>

definition truthy :: "json \<Rightarrow> bool" where
  "truthy j =
     (case j of JNull \<Rightarrow> False | JBool b \<Rightarrow> b | JNum n \<Rightarrow> n \<noteq> 0 | JStr t \<Rightarrow> t \<noteq> []
      | JArr xs \<Rightarrow> True | JObj fs \<Rightarrow> True)"

definition truthy_val :: "jsval \<Rightarrow> bool" where
  "truthy_val v = (case v of None \<Rightarrow> False | Some j \<Rightarrow> truthy j)"

text \<open>\<^verbatim>\<open>sendSignal\<close>: the \<^verbatim>\<open>try\<close> around \<^verbatim>\<open>process.kill(pid, signal)\<close>.\<close>

definition sendSignal :: "jsval \<Rightarrow> signal \<Rightarrow> machine \<Rightarrow> bool \<times> machine" where
  "sendSignal v sig m =
     (case process_kill v sig m of
        (Inr u, m1) \<Rightarrow> (True, m1)
      | (Inl e, m1) \<Rightarrow> (False, m1))"

text \<open>
  \<^verbatim>\<open>waitForExit\<close> looks at once and then every \<open>intervalMs\<close> (200) until the process is
  gone or \<open>timeoutMs\<close> have passed. Time is not modelled beyond the number of looks that
  fit into the wait with exact timers: \<open>timeoutMs div 200 + 1\<close>.
\<close>

fun poll :: "nat \<Rightarrow> jsval \<Rightarrow> machine \<Rightarrow> bool \<times> machine" where
  "poll 0 v m = (False, m)"
| "poll (Suc k) v m =
     (case pid_running v m of
        (False, m1) \<Rightarrow> (True, m1)
      | (True, m1) \<Rightarrow> poll k v m1)"

definition waitForExit :: "jsval \<Rightarrow> nat \<Rightarrow> machine \<Rightarrow> bool \<times> machine" where
  "waitForExit v timeoutMs m = poll (timeoutMs div 200 + 1) v m"

definition say :: "string \<Rightarrow> machine \<Rightarrow> machine" where
  "say msg m = m\<lparr>console := console m @ [msg]\<rparr>"

record StopResult =
  s_port :: int
  success :: bool
  message :: string

text \<open>
  \<^verbatim>\<open>v && isProcessRunning(v)\<close>: the probe is made only for a truthy value.
\<close>

definition truthy_and_running :: "jsval \<Rightarrow> machine \<Rightarrow> bool \<times> machine" where
  "truthy_and_running v m = (if truthy_val v then pid_running v m else (False, m))"

text \<open>The branch of \<^verbatim>\<open>stopInstance\<close> for an owner that is not running.\<close>

definition stop_dead :: "int \<Rightarrow> jsval \<Rightarrow> machine \<Rightarrow> StopResult \<times> machine" where
  "stop_dead p chromePid m =
     (let m1 = (case truthy_and_running chromePid m of
                  (True, m') \<Rightarrow>
                    say (''Killed orphaned Chrome process (PID '' @ template chromePid @
                         '') for port '' @ show_int p)
                        (snd (sendSignal chromePid SIGKILL m'))
                | (False, m') \<Rightarrow> m');
          m2 = unregisterInstance (Some (JNum p)) m1
      in (\<lparr>s_port = p, success = True,
           message = ''Instance on port '' @ show_int p @
                     '' was already stopped (cleaned registry)''\<rparr>, m2))"

text \<open>The rest of \<^verbatim>\<open>stopInstance\<close>, for an owner that is running.\<close>

definition stop_live :: "int \<Rightarrow> jsval \<Rightarrow> jsval \<Rightarrow> machine \<Rightarrow> StopResult \<times> machine" where
  "stop_live p pid chromePid m =
     (let m1 = say (''Sending SIGTERM to server PID '' @ template pid @ '' on port '' @
                    show_int p @ ''...'') m;
          m2 = snd (sendSignal pid SIGTERM m1);
          (serverExited, m3) = waitForExit pid 5000 m2;
          m4 = (if \<not> serverExited then
                  snd (waitForExit pid 2000
                         (snd (sendSignal pid SIGKILL
                                 (say (''Server PID '' @ template pid @
                                       '' did not exit after 5s, sending SIGKILL...'') m3))))
                else m3);
          m5 = (case truthy_and_running chromePid m4 of
                  (True, m') \<Rightarrow>
                    snd (waitForExit chromePid 2000
                           (snd (sendSignal chromePid SIGKILL
                                   (say (''Chrome PID '' @ template chromePid @
                                         '' still running, sending SIGKILL...'') m'))))
                | (False, m') \<Rightarrow> m');
          m6 = unregisterInstance (Some (JNum p)) m5;
          (serverRunning, m7) = pid_running pid m6;
          serverGone = (\<not> serverRunning);
          (chromeRunning, m8) = truthy_and_running chromePid m7;
          chromeGone = (\<not> chromeRunning)
      in if serverGone \<and> chromeGone then
           (\<lparr>s_port = p, success = True,
             message = ''Instance on port '' @ show_int p @ '' stopped successfully''\<rparr>, m8)
         else
           (\<lparr>s_port = p, success = False,
             message = ''Instance on port '' @ show_int p @
               '' may not have fully stopped (server: '' @
               (if serverGone then ''stopped'' else ''running'') @ '', chrome: '' @
               (if chromeGone then ''stopped'' else ''running'') @ '')''\<rparr>, m8))"

definition stopInstance :: "int \<Rightarrow> machine \<Rightarrow> StopResult \<times> machine" where
  "stopInstance p m =
     (let info = getInstance p m in
      if \<not> truthy info then
        (\<lparr>s_port = p, success = False,
          message = ''No instance registered on port '' @ show_int p\<rparr>, m)
      else
        (let pid = (case get_prop info ''pid'' of Inl e \<Rightarrow> None | Inr v \<Rightarrow> v);
             chromePid = (case get_prop info ''chromePid'' of Inl e \<Rightarrow> None | Inr v \<Rightarrow> v)
         in case pid_running pid m of
              (False, m1) \<Rightarrow> stop_dead p chromePid m1
            | (True, m1) \<Rightarrow> stop_live p pid chromePid m1))"

text \<open>
  The registry directory as the program keeps it: the names are distinct, and a file with
  the suffix \<^verbatim>\<open>.json\<close> either does not parse (the program skips it) or holds a value
  whose \<open>port\<close> is the number that names the file. Every write of the program goes to
  \<^verbatim>\<open>`${port}.json`\<close> of the record written, so the program keeps the directory so.
\<close>

definition record_file :: "string \<times> contents \<Rightarrow> bool" where
  "record_file e =
     (case snd e of
        Corrupt \<Rightarrow> True
      | Doc info \<Rightarrow>
          (case get_prop info ''port'' of
             Inr (Some (JNum q)) \<Rightarrow> fst e = instancePath (Some (JNum q))
           | _ \<Rightarrow> False))"

definition registry_ok :: "machine \<Rightarrow> bool" where
  "registry_ok m =
     (distinct (map fst (entries m)) \<and>
      list_all (\<lambda>e. \<not> endsWith (fst e) ''.json'' \<or> record_file e) (entries m))"

text \<open>
  The records of the registry, in directory order, and the test of staleness that
  \<^verbatim>\<open>cleanStaleInstances\<close> applies to a record and, through it, to a file.
\<close>

definition records :: "machine \<Rightarrow> json list" where
  "records m = collect m (map fst (entries m))"

definition stale :: "machine \<Rightarrow> json \<Rightarrow> bool" where
  "stale m info = (case get_prop info ''pid'' of Inl e \<Rightarrow> False | Inr p \<Rightarrow> \<not> reachable m p)"

definition stale_file :: "machine \<Rightarrow> string \<times> contents \<Rightarrow> bool" where
  "stale_file m e =
     (endsWith (fst e) ''.json'' \<and> (case snd e of Corrupt \<Rightarrow> False | Doc info \<Rightarrow> stale m info))"

text \<open>The file that \<^verbatim>\<open>unregisterInstance(info.port)\<close> unlinks for a record.\<close>

definition file_of :: "json \<Rightarrow> string" where
  "file_of info = instancePath (case get_prop info ''port'' of Inl e \<Rightarrow> None | Inr q \<Rightarrow> q)"

text \<open>Machines and records for concrete runs.\<close>

definition info_a :: InstanceInfo where
  "info_a = \<lparr>i_pid = 100, i_port = 9222, i_cdpPort = 9223, i_mode = Launch, i_label = ''a'',
             i_headless = True, i_startedAt = ''2026-01-01T00:00:00Z'', i_profileDir = None,
             i_chromePid = Some 101\<rparr>"

definition info_b :: InstanceInfo where
  "info_b = \<lparr>i_pid = 200, i_port = 9224, i_cdpPort = 9225, i_mode = Relay, i_label = ''b'',
             i_headless = False, i_startedAt = ''2026-01-02T00:00:00Z'',
             i_profileDir = Some ''/profiles/b'', i_chromePid = Some 201\<rparr>"

definition info_c :: InstanceInfo where
  "info_c = \<lparr>i_pid = 300, i_port = 9226, i_cdpPort = 9227, i_mode = Launch, i_label = ''c'',
             i_headless = True, i_startedAt = ''2026-01-03T00:00:00Z'', i_profileDir = None,
             i_chromePid = None\<rparr>"

definition decimal :: "string \<Rightarrow> int option" where
  "decimal t = (if t = ''844'' then Some 844 else None)"

definition machine_ab :: machine where
  "machine_ab =
     \<lparr>registry = Some [(''9224.json'', Doc (instance_json info_b)), (''notes.txt'', Corrupt),
                       (''9222.json'', Doc (instance_json info_a)), (''broken.json'', Corrupt)],
      alive = {100, 101, 201}, exits_on = (\<lambda>p sig. sig = SIGKILL), number_of = decimal,
      kills = [], console = []\<rparr>"

text \<open>
  A registry directory with a stale record and a stray file that holds the JSON value
  \<^verbatim>\<open>null\<close>, and one in which the file of a stale record has been copied under another
  name.
\<close>

definition machine_null :: machine where
  "machine_null =
     \<lparr>registry = Some [(''9224.json'', Doc (instance_json info_b)), (''stray.json'', Doc JNull)],
      alive = {100, 101, 201}, exits_on = (\<lambda>p sig. sig = SIGKILL), number_of = decimal,
      kills = [], console = []\<rparr>"

definition machine_copy :: machine where
  "machine_copy =
     \<lparr>registry = Some [(''copy.json'', Doc (instance_json info_b))],
      alive = {100, 101, 201}, exits_on = (\<lambda>p sig. sig = SIGKILL), number_of = decimal,
      kills = [], console = []\<rparr>"

section \<open>Decimal rendering is injective\<close>

lemma digit_cases: "d < 10 \<Longrightarrow> d = 0 \<or> d = 1 \<or> d = 2 \<or> d = 3 \<or> d = 4 \<or> d = 5 \<or> d = 6 \<or> d = 7 \<or> d = 8 \<or> d = (9::nat)"
  by arith

lemma digit_val_char: "d < 10 \<Longrightarrow> digit_val (digit_char d) = d"
  by (drule digit_cases) (auto simp add: digit_char_def digit_val_def)

lemma digit_char_not_minus: "d < 10 \<Longrightarrow> digit_char d \<noteq> CHR ''-''"
  by (drule digit_cases) (auto simp add: digit_char_def)


lemma show_nat_small: "n < 10 \<Longrightarrow> show_nat n = [digit_char n]"
  by (subst show_nat.simps) simp

lemma show_nat_large: "\<not> n < 10 \<Longrightarrow> show_nat n = show_nat (n div 10) @ [digit_char (n mod 10)]"
  by (subst show_nat.simps) simp

lemma read_nat_snoc: "read_nat (s @ [c]) = 10 * read_nat s + digit_val c"
  by (simp add: read_nat_def)

lemma read_show_nat: "read_nat (show_nat n) = n"
proof (induction n rule: show_nat.induct)
  case (1 n)
  show ?case
  proof (cases "n < 10")
    case True
    then show ?thesis
      by (simp add: show_nat_small read_nat_def digit_val_char)
  next
    case False
    then have "read_nat (show_nat (n div 10)) = n div 10"
      using 1 by simp
    then show ?thesis
      using False by (simp add: show_nat_large read_nat_snoc digit_val_char)
  qed
qed

lemma show_nat_inj: "show_nat a = show_nat b \<Longrightarrow> a = b"
  by (metis read_show_nat)

lemma show_nat_hd: "\<exists>d cs. d < 10 \<and> show_nat n = digit_char d # cs"
proof (induction n rule: show_nat.induct)
  case (1 n)
  show ?case
  proof (cases "n < 10")
    case True
    then have "n < 10 \<and> show_nat n = digit_char n # []"
      by (simp add: show_nat_small)
    then show ?thesis by blast
  next
    case False
    then obtain d cs where d: "d < 10" "show_nat (n div 10) = digit_char d # cs"
      using 1 by blast
    have "d < 10 \<and> show_nat n = digit_char d # (cs @ [digit_char (n mod 10)])"
      using d False by (simp add: show_nat_large)
    then show ?thesis by blast
  qed
qed

lemma show_nat_not_minus: "show_nat n \<noteq> CHR ''-'' # cs"
proof
  assume eq: "show_nat n = CHR ''-'' # cs"
  obtain d ds where d: "d < 10" "show_nat n = digit_char d # ds"
    using show_nat_hd [of n] by blast
  then have "digit_char d = CHR ''-''"
    using eq by simp
  then show False
    using digit_char_not_minus [OF d(1)] by simp
qed

lemma show_int_inj: "show_int a = show_int b \<Longrightarrow> a = b"
proof -
  assume eq: "show_int a = show_int b"
  show "a = b"
  proof (cases "a < 0")
    case True
    show ?thesis
    proof (cases "b < 0")
      case True
      with \<open>a < 0\<close> eq have "show_nat (nat (- a)) = show_nat (nat (- b))"
        by (simp add: show_int_def)
      then have "nat (- a) = nat (- b)" by (rule show_nat_inj)
      with True \<open>a < 0\<close> show ?thesis by simp
    next
      case False
      with \<open>a < 0\<close> eq have "show_nat (nat b) = CHR ''-'' # show_nat (nat (- a))"
        by (simp add: show_int_def)
      then show ?thesis using show_nat_not_minus by blast
    qed
  next
    case False
    show ?thesis
    proof (cases "b < 0")
      case True
      with \<open>\<not> a < 0\<close> eq have "show_nat (nat a) = CHR ''-'' # show_nat (nat (- b))"
        by (simp add: show_int_def)
      then show ?thesis using show_nat_not_minus by blast
    next
      case False
      with \<open>\<not> a < 0\<close> eq have "show_nat (nat a) = show_nat (nat b)"
        by (simp add: show_int_def)
      then have "nat a = nat b" by (rule show_nat_inj)
      with False \<open>\<not> a < 0\<close> show ?thesis by simp
    qed
  qed
qed

lemma formatUptime_refines_spec: "formatUptime now (Millis t) = uptime_spec (now - t)"
proof -
  define e where "e = now - t"
  have d1: "e div 1000 div 60 = e div 60000"
    by (simp add: div_mult2_eq [symmetric])
  have d2: "e div 60000 div 60 = e div 3600000"
    by (simp add: div_mult2_eq [symmetric])
  have d3: "e div 3600000 div 24 = e div 86400000"
    by (simp add: div_mult2_eq [symmetric])
  have p3: "0 \<le> e \<Longrightarrow> (0 < e div 86400000) = (\<not> e < 86400000)"
    by (auto simp add: pos_imp_zdiv_pos_iff)
  have p2: "0 \<le> e \<Longrightarrow> (0 < e div 3600000) = (\<not> e < 3600000)"
    by (auto simp add: pos_imp_zdiv_pos_iff)
  have p1: "0 \<le> e \<Longrightarrow> (0 < e div 60000) = (\<not> e < 60000)"
    by (auto simp add: pos_imp_zdiv_pos_iff)
  show ?thesis
    unfolding formatUptime_def uptime_spec_def e_def [symmetric] js_time.case Let_def d1 d2 d3
    using p1 p2 p3 by auto
qed


section \<open>Port selection: the smallest free pair\<close>

lemma pair_free_iff:
  "pair_free free p = (p + 1 \<le> 65535 \<and> free p \<and> free (p + 1))"
  by (auto simp: pair_free_def port_free_def isPortAvailable_def)

lemma auto_select_finds:
  "attempt + k < maxAttempts \<Longrightarrow> pair_free free (c + 2 * k) \<Longrightarrow>
   (\<forall>j<k. \<not> pair_free free (c + 2 * j)) \<Longrightarrow>
   fst (auto_select free r maxAttempts attempt c probes) =
     Inr \<lparr>port = c + 2 * k, cdpPort = c + 2 * k + 1,
          wasAutoSelected = (c + 2 * k \<noteq> r), requestedPort = r\<rparr>"
proof (induction k arbitrary: attempt c probes)
  case 0
  then show ?case
    by (subst auto_select.simps) (simp add: pair_free_iff isPortAvailable_def)
next
  case (Suc k)
  have range: "c + 1 \<le> 65535"
    using Suc.prems(2) by (simp add: pair_free_iff)
  have notfree: "\<not> (free c \<and> free (c + 1))"
    using Suc.prems(3) [rule_format, of 0] range by (simp add: pair_free_iff)
  have later: "\<forall>j<k. \<not> pair_free free (c + 2 + 2 * j)"
  proof (intro allI impI)
    fix j assume "j < k"
    then have "\<not> pair_free free (c + 2 * Suc j)"
      using Suc.prems(3) [rule_format, of "Suc j"] by simp
    then show "\<not> pair_free free (c + 2 + 2 * j)" by simp
  qed
  have ih: "fst (auto_select free r maxAttempts (attempt + 1) (c + 2) probes') =
     Inr \<lparr>port = c + 2 + 2 * k, cdpPort = c + 2 + 2 * k + 1,
          wasAutoSelected = (c + 2 + 2 * k \<noteq> r), requestedPort = r\<rparr>" for probes'
    using Suc.IH [of "attempt + 1" "c + 2" probes'] Suc.prems(1,2) later by simp
  have lt: "attempt < maxAttempts"
    using Suc.prems(1) by simp
  have step: "auto_select free r maxAttempts attempt c probes =
      auto_select free r maxAttempts (attempt + 1) (c + 2) (probes @ [c, c + 1])"
    using lt range notfree
    by (subst auto_select.simps) (auto simp add: isPortAvailable_def)
  show ?case
    unfolding step using ih by simp
qed

text \<open>
  Claim C2. With a requested primary port \<open>p\<close>, no explicit secondary port and the default
  attempt bound of 20: if \<open>k < 20\<close> is the smallest index at which both \<open>p + 2k\<close> and
  \<open>p + 2k + 1\<close> are free, then \<open>findAvailablePort\<close> returns \<open>port = p + 2k\<close> and
  \<open>cdpPort = p + 2k + 1\<close>, with \<open>wasAutoSelected\<close> false for \<open>k = 0\<close> and true for
  \<open>k \<ge> 1\<close>.
\<close>

theorem findAvailablePort_smallest_free_pair:
  assumes "k < 20" and "pair_free free (p + 2 * k)" and "\<forall>j<k. \<not> pair_free free (p + 2 * j)"
  shows "fst (findAvailablePort free (Some p) None None) =
           Inr \<lparr>port = p + 2 * k, cdpPort = p + 2 * k + 1,
                wasAutoSelected = (k \<noteq> 0), requestedPort = p\<rparr>"
  using auto_select_finds [of 0 k 20 free p p "[]"] assms
  by (simp add: findAvailablePort_def)

theorem findAvailablePort_smallest_free_pair_witness:
  "pair_free net_example 9226 \<and> \<not> pair_free net_example 9222 \<and> \<not> pair_free net_example 9224 \<and>
   fst (findAvailablePort net_example (Some 9222) None None) =
     Inr \<lparr>port = 9226, cdpPort = 9227, wasAutoSelected = True, requestedPort = 9222\<rparr>"
proof -
  have a: "(2::nat) < 20" by simp
  have b: "pair_free net_example (9222 + 2 * 2)"
    by (simp add: pair_free_iff net_example_def)
  have c: "\<forall>j<2. \<not> pair_free net_example (9222 + 2 * j)"
  proof (intro allI impI)
    fix j :: nat assume "j < 2"
    then have "j = 0 \<or> j = 1" by arith
    then show "\<not> pair_free net_example (9222 + 2 * j)"
      by (auto simp add: pair_free_iff net_example_def)
  qed
  have d: "fst (findAvailablePort net_example (Some 9222) None None) =
     Inr \<lparr>port = 9226, cdpPort = 9227, wasAutoSelected = True, requestedPort = 9222\<rparr>"
    using findAvailablePort_smallest_free_pair [OF a b c] by simp
  have e: "pair_free net_example 9226 \<and> \<not> pair_free net_example 9222 \<and> \<not> pair_free net_example 9224"
    by (simp add: pair_free_iff net_example_def)
  show ?thesis
    using d e by blast
qed

section \<open>Port selection: exhaustion\<close>

text \<open>
  When no candidate pair is free the loop probes \<open>n\<close> pairs and stops, by the attempt
  bound or at the end of the port range. If the requested pair itself lies within the port
  range, at least one pair is probed and the message names the requested port and the last
  primary port probed.
\<close>

lemma auto_select_none_free:
  "(\<forall>j. attempt + j < maxAttempts \<longrightarrow> \<not> pair_free free (c + 2 * j)) \<Longrightarrow>
   d = maxAttempts - attempt \<Longrightarrow>
   \<exists>n. n \<le> d \<and> (c + 1 \<le> 65535 \<and> 0 < d \<longrightarrow> 0 < n) \<and>
       auto_select free r maxAttempts attempt c probes =
         (Inl (Error (exhausted_message maxAttempts r (int (c + 2 * n) - 2))),
          probes @ scanned_pairs c n)"
proof (induction d arbitrary: attempt c probes)
  case 0
  then have "\<not> attempt < maxAttempts" by simp
  then have "auto_select free r maxAttempts attempt c probes =
      (Inl (Error (exhausted_message maxAttempts r (int (c + 2 * 0) - 2))), probes @ scanned_pairs c 0)"
    by (subst auto_select.simps) simp
  then show ?case by blast
next
  case (Suc d)
  have lt: "attempt < maxAttempts"
    using Suc.prems(2) by simp
  show ?case
  proof (cases "c + 1 \<le> 65535")
    case False
    then have "auto_select free r maxAttempts attempt c probes =
        (Inl (Error (exhausted_message maxAttempts r (int (c + 2 * 0) - 2))), probes @ scanned_pairs c 0)"
      using lt by (subst auto_select.simps) simp
    then show ?thesis
      using False by (intro exI [of _ 0]) simp
  next
    case True
    have notfree: "\<not> (free c \<and> free (c + 1))"
      using Suc.prems(1) [rule_format, of 0] lt True by (simp add: pair_free_iff)
    have step: "auto_select free r maxAttempts attempt c probes =
        auto_select free r maxAttempts (attempt + 1) (c + 2) (probes @ [c, c + 1])"
      using lt True notfree
      by (subst auto_select.simps) (auto simp add: isPortAvailable_def)
    have later: "\<forall>j. attempt + 1 + j < maxAttempts \<longrightarrow> \<not> pair_free free (c + 2 + 2 * j)"
    proof (intro allI impI)
      fix j assume "attempt + 1 + j < maxAttempts"
      then have "\<not> pair_free free (c + 2 * Suc j)"
        using Suc.prems(1) [rule_format, of "Suc j"] by simp
      then show "\<not> pair_free free (c + 2 + 2 * j)" by simp
    qed
    have d: "d = maxAttempts - (attempt + 1)"
      using Suc.prems(2) by simp
    obtain n where n: "n \<le> d"
      "auto_select free r maxAttempts (attempt + 1) (c + 2) (probes @ [c, c + 1]) =
         (Inl (Error (exhausted_message maxAttempts r (int (c + 2 + 2 * n) - 2))),
          (probes @ [c, c + 1]) @ scanned_pairs (c + 2) n)"
      using Suc.IH [OF later d, of "probes @ [c, c + 1]"] by blast
    have "auto_select free r maxAttempts attempt c probes =
         (Inl (Error (exhausted_message maxAttempts r (int (c + 2 * Suc n) - 2))),
          probes @ scanned_pairs c (Suc n))"
      unfolding step n(2) by simp
    then show ?thesis
      using n(1) by (intro exI [of _ "Suc n"]) simp
  qed
qed

lemma findAvailablePort_exhausted_range:
  assumes "\<forall>j<20. \<not> pair_free free (p + 2 * j)" and "p + 1 \<le> 65535"
  shows "\<exists>n. 0 < n \<and> n \<le> 20 \<and>
           findAvailablePort free (Some p) None None =
             (Inl (Error (exhausted_message 20 p (int (p + 2 * (n - 1))))), scanned_pairs p n)"
proof -
  have a: "\<forall>j. 0 + j < 20 \<longrightarrow> \<not> pair_free free (p + 2 * j)"
    using assms(1) by simp
  obtain n where n: "n \<le> 20" "0 < n"
    "auto_select free p 20 0 p [] =
       (Inl (Error (exhausted_message 20 p (int (p + 2 * n) - 2))), [] @ scanned_pairs p n)"
    using auto_select_none_free [OF a, of 20 p "[]"] assms(2) by auto
  have eq: "int (p + 2 * (n - 1)) = int (p + 2 * n) - 2"
    using n(2) by (cases n) simp_all
  have "findAvailablePort free (Some p) None None = auto_select free p 20 0 p []"
    by (simp add: findAvailablePort_def)
  then have "findAvailablePort free (Some p) None None =
      (Inl (Error (exhausted_message 20 p (int (p + 2 * (n - 1))))), scanned_pairs p n)"
    unfolding eq n(3) by simp
  then show ?thesis
    using n(1,2) by blast
qed

text \<open>
  Claim C8. On the auto-selection path with no free candidate pair the call fails, and the
  message is to name the ports actually scanned, from the requested port to the last
  candidate tried, also when the candidates leave the port range before the attempt bound.
  At the requested port 65535 the loop leaves at its first candidate (65536 is no port):
  nothing is probed, yet the message reads \<open>tried 65535\<close>--\<open>65533\<close>, after \<open>20 attempts\<close>.
\<close>

theorem findAvailablePort_at_65535:
  "findAvailablePort free (Some 65535) None None =
     (Inl (Error (exhausted_message 20 65535 65533)), [])
   \<and> exhausted_message 20 65535 65533 =
     ''Could not find an available port pair after 20 attempts (tried 65535'' @ en_dash @
     ''65533). Specify an explicit --port.''"
proof -
  have run: "findAvailablePort free (Some 65535) None None =
     (Inl (Error (exhausted_message 20 65535 65533)), [])"
    by (simp add: findAvailablePort_def auto_select.simps)
  have msg: "exhausted_message 20 65535 65533 =
     ''Could not find an available port pair after 20 attempts (tried 65535'' @ en_dash @
     ''65533). Specify an explicit --port.''"
    by (simp add: exhausted_message_def show_int_def show_nat.simps digit_char_def)
  show ?thesis
    using run msg by blast
qed

section \<open>Uptime rendering\<close>

text \<open>
  Claim C9. For a timestamp \<open>t\<close> and the current time \<open>now\<close>, \<open>formatUptime\<close> renders the
  elapsed time \<open>now - t\<close> as the specification words it (\<open>uptime_spec\<close>: \<open>0s\<close> when
  negative, seconds below a minute, minutes below an hour, hours and minutes below a day,
  days and hours otherwise); in particular 0 s elapsed gives \<open>0s\<close>, 90 s gives \<open>1m\<close>,
  2 h 15 min gives \<open>2h 15m\<close>, 27 h gives \<open>1d 3h\<close>, and a timestamp one hour ahead gives
  \<open>0s\<close>.
\<close>

theorem formatUptime_cases:
  "formatUptime now (Millis t) = uptime_spec (now - t)
   \<and> formatUptime t (Millis t) = ''0s''
   \<and> formatUptime (t + 90 * 1000) (Millis t) = ''1m''
   \<and> formatUptime (t + (2 * 60 + 15) * 60 * 1000) (Millis t) = ''2h 15m''
   \<and> formatUptime (t + 27 * 60 * 60 * 1000) (Millis t) = ''1d 3h''
   \<and> formatUptime t (Millis (t + 60 * 60 * 1000)) = ''0s''"
  by (simp add: formatUptime_refines_spec)
     (simp add: uptime_spec_def show_int_def show_nat.simps digit_char_def)


section \<open>Profile lock: runs and traces\<close>

lemma trace_yield [simp]: "trace (yield s) = trace s"
  by (simp add: yield_def split: list.splits)

lemma yield_no_others [simp]: "others s = [] \<Longrightarrow> yield s = s"
  by (simp add: yield_def)

lemma trace_emit [simp]: "trace (emit e s) = trace s @ [e]"
  by (simp add: emit_def)

lemma world_emit [simp]: "world (emit e s) = world s"
  by (simp add: emit_def)

lemma others_emit [simp]: "others (emit e s) = others s"
  by (simp add: emit_def)

lemma locked_message_parts:
  "sublist (''PID '' @ show_int (l_pid h)) (locked_message d h)"
  "sublist (''port '' @ show_int (l_port h)) (locked_message d h)"
  "sublist (''started '' @ template (l_startedAt h)) (locked_message d h)"
proof -
  let ?pre1 = "''Profile directory '' @ dquote @ d @ dquote @ '' is locked by another instance (''"
  let ?post1 = "'', port '' @ show_int (l_port h) @ '', started '' @ template (l_startedAt h) @
     ''). Use a different --profile-dir or stop the other instance first.''"
  have "locked_message d h = ?pre1 @ (''PID '' @ show_int (l_pid h)) @ ?post1"
    by (simp add: locked_message_def)
  then show "sublist (''PID '' @ show_int (l_pid h)) (locked_message d h)"
    using sublist_appendI by metis
  let ?pre2 = "''Profile directory '' @ dquote @ d @ dquote @ '' is locked by another instance (PID '' @
     show_int (l_pid h) @ '', ''"
  let ?post2 = "'', started '' @ template (l_startedAt h) @
     ''). Use a different --profile-dir or stop the other instance first.''"
  have "locked_message d h = ?pre2 @ (''port '' @ show_int (l_port h)) @ ?post2"
    by (simp add: locked_message_def)
  then show "sublist (''port '' @ show_int (l_port h)) (locked_message d h)"
    using sublist_appendI by metis
  let ?pre3 = "''Profile directory '' @ dquote @ d @ dquote @ '' is locked by another instance (PID '' @
     show_int (l_pid h) @ '', port '' @ show_int (l_port h) @ '', ''"
  let ?post3 = "''). Use a different --profile-dir or stop the other instance first.''"
  have "locked_message d h = ?pre3 @ (''started '' @ template (l_startedAt h)) @ ?post3"
    by (simp add: locked_message_def)
  then show "sublist (''started '' @ template (l_startedAt h)) (locked_message d h)"
    using sublist_appendI by metis
qed

lemma lock_node_dir: "lock_node w = Some c \<Longrightarrow> lock_dir w = Dir (Some c)"
  by (simp add: lock_node_def split: dir_state.splits)

lemma readLock_quiet:
  "others s = [] \<Longrightarrow> lock_node (world s) = Some c \<Longrightarrow>
   readLock s = (parse_lock c, s\<lparr>trace := trace s @ [Exists True, Read (Some c)]\<rparr>)"
  by (simp add: readLock_def existsSync_def readFileSync_def Let_def emit_def)

lemma acquire_live:
  assumes "lock_node w = Some c" and "parse_lock c = Some holder" and "l_pid holder \<in> procs w"
  shows "acquireProfileLock self now d lp (start w []) =
           (Inl (Error (locked_message d holder)),
            \<lparr>world = w, others = [],
             trace = [Mkdir, Exists True, Read (Some c), Probe (l_pid holder) True]\<rparr>)"
proof -
  have dir: "lock_dir w = Dir (Some c)"
    using assms(1) by (rule lock_node_dir)
  have mk: "mkdirSync (start w []) = \<lparr>world = w, others = [], trace = [Mkdir]\<rparr>"
    using dir by (simp add: mkdirSync_def start_def Let_def emit_def)
  show ?thesis
    using assms
    by (simp add: acquireProfileLock_def mk readLock_quiet isProcessRunning_def Let_def emit_def)
qed


lemma create_quiet_free:
  "others s = [] \<Longrightarrow> lock_dir (world s) = Dir None \<Longrightarrow>
   create_lock d doc s =
     (Inr (), s\<lparr>world := (world s)\<lparr>lock_dir := Dir (Some doc)\<rparr>, trace := trace s @ [CreateExcl None]\<rparr>)"
  by (simp add: create_lock_def writeFileSync_wx_def Let_def emit_def)

lemma acquire_stale:
  assumes "lock_node w = Some c" and "parse_lock c = Some holder" and "l_pid holder \<notin> procs w"
  shows "acquireProfileLock self now d lp (start w []) =
           (Inr (),
            \<lparr>world = w\<lparr>lock_dir := Dir (Some (Doc (lock_json
                 \<lparr>l_pid = self, l_port = lp, l_startedAt = Some (JStr now)\<rparr>)))\<rparr>,
             others = [],
             trace = [Mkdir, Exists True, Read (Some c), Probe (l_pid holder) False,
                      ConsoleLog (stale_message holder), Unlink True, CreateExcl None]\<rparr>)"
proof -
  have dir: "lock_dir w = Dir (Some c)"
    using assms(1) by (rule lock_node_dir)
  have mk: "mkdirSync (start w []) = \<lparr>world = w, others = [], trace = [Mkdir]\<rparr>"
    using dir by (simp add: mkdirSync_def start_def Let_def emit_def)
  show ?thesis
    using assms
    by (simp add: acquireProfileLock_def mk readLock_quiet isProcessRunning_def Let_def emit_def
        console_log_def removeLock_def unlinkSync_def create_quiet_free)
qed

lemma lock_json_roundtrip: "parse_lock (Doc (lock_json l)) = Some l"
  by (cases "l_startedAt l") (simp_all add: parse_lock_def lock_of_json_def lock_json_def get_prop_def)

lemma acquire_malformed:
  assumes "lock_node w = Some c" and "parse_lock c = None"
  shows "acquireProfileLock self now d lp (start w []) =
           (Inr (),
            \<lparr>world = w\<lparr>lock_dir := Dir (Some (Doc (lock_json
                 \<lparr>l_pid = self, l_port = lp, l_startedAt = Some (JStr now)\<rparr>)))\<rparr>,
             others = [],
             trace = [Mkdir, Exists True, Read (Some c), CreateExcl (Some EEXIST),
                      Exists True, Read (Some c), Unlink True, CreateExcl None]\<rparr>)"
proof -
  have dir: "lock_dir w = Dir (Some c)"
    using assms(1) by (rule lock_node_dir)
  have mk: "mkdirSync (start w []) = \<lparr>world = w, others = [], trace = [Mkdir]\<rparr>"
    using dir by (simp add: mkdirSync_def start_def Let_def emit_def)
  show ?thesis
    using assms dir
    by (simp add: acquireProfileLock_def mk readLock_quiet Let_def emit_def
        create_lock_def writeFileSync_wx_def retry_create_def removeLock_def unlinkSync_def)
qed


lemma writeFileSync_wx_trace:
  "trace (snd (writeFileSync_wx doc s)) = trace s @ [CreateExcl (fst (writeFileSync_wx doc s))]"
  by (simp add: writeFileSync_wx_def Let_def split: dir_state.splits option.splits)

lemma retry_create_trace:
  "\<exists>b r2. trace (snd (retry_create doc s)) = trace s @ [Unlink b, CreateExcl r2] \<and>
     fst (retry_create doc s) = (case r2 of None \<Rightarrow> Inr () | Some e \<Rightarrow> Inl (SystemError e))"
proof -
  have "\<exists>b. trace (removeLock s) = trace s @ [Unlink b]"
    by (cases "lock_node (world (yield s))") (auto simp add: removeLock_def unlinkSync_def Let_def)
  then obtain b where b: "trace (removeLock s) = trace s @ [Unlink b]"
    by blast
  obtain r2 s2 where w: "writeFileSync_wx doc (removeLock s) = (r2, s2)"
    by (cases "writeFileSync_wx doc (removeLock s)")
  have "trace s2 = trace s @ [Unlink b, CreateExcl r2]"
    using writeFileSync_wx_trace [of doc "removeLock s"] w b by simp
  moreover have "fst (retry_create doc s) = (case r2 of None \<Rightarrow> Inr () | Some e \<Rightarrow> Inl (SystemError e))"
    using w by (simp add: retry_create_def Let_def split: option.splits)
  moreover have "snd (retry_create doc s) = s2"
    using w by (simp add: retry_create_def Let_def split: option.splits)
  ultimately show ?thesis by auto
qed

lemma existsSync_trace:
  "trace (snd (existsSync s)) = trace s @ [Exists (fst (existsSync s))]"
  by (simp add: existsSync_def Let_def)

lemma readFileSync_trace:
  "(trace (snd (readFileSync s)) = trace s @ [Read None] \<and> fst (readFileSync s) = Inl (SystemError ENOENT))
   \<or> (\<exists>c. trace (snd (readFileSync s)) = trace s @ [Read (Some c)] \<and> fst (readFileSync s) = Inr c)"
  by (cases "lock_node (world (yield s))") (simp_all add: readFileSync_def Let_def)

lemma readLock_trace:
  "(trace (snd (readLock s)) = trace s @ [Exists False] \<and> fst (readLock s) = None)
   \<or> (trace (snd (readLock s)) = trace s @ [Exists True, Read None] \<and> fst (readLock s) = None)
   \<or> (\<exists>c. trace (snd (readLock s)) = trace s @ [Exists True, Read (Some c)] \<and>
            fst (readLock s) = parse_lock c)"
proof -
  obtain ex s1 where e: "existsSync s = (ex, s1)"
    by (cases "existsSync s")
  have t1: "trace s1 = trace s @ [Exists ex]"
    using existsSync_trace [of s] e by simp
  show ?thesis
  proof (cases ex)
    case False
    then show ?thesis
      using e t1 by (simp add: readLock_def)
  next
    case True
    obtain r s2 where rd: "readFileSync s1 = (r, s2)"
      by (cases "readFileSync s1")
    have rl: "readLock s = (case r of Inl x \<Rightarrow> None | Inr c \<Rightarrow> parse_lock c, s2)"
      using e True rd by (simp add: readLock_def split: sum.splits)
    show ?thesis
      using readFileSync_trace [of s1] rd rl t1 True by auto
  qed
qed

lemma isProcessRunning_trace:
  "trace (snd (isProcessRunning p s)) = trace s @ [Probe p (fst (isProcessRunning p s))]"
  by (simp add: isProcessRunning_def Let_def)

text \<open>
  What follows a lost race, under any schedule of the other processes. When the first
  exclusive create fails with \<open>EEXIST\<close> the lock is read again. If a valid record is read
  and its process is running, the call fails with the error naming that winner, and
  nothing else is done. In every other case one unlink and exactly one more exclusive
  create follow, and the call ends with the outcome of that create: success, or the
  exception of the file system as it is.
\<close>

lemma create_lock_lost_race:
  assumes "fst (writeFileSync_wx doc (start w sch)) = Some EEXIST"
  shows "(\<exists>c winner.
            trace (snd (create_lock d doc (start w sch))) =
              [CreateExcl (Some EEXIST), Exists True, Read (Some c), Probe (l_pid winner) True] \<and>
            parse_lock c = Some winner \<and>
            fst (create_lock d doc (start w sch)) = Inl (Error (just_locked_message d winner)))
       \<or> (\<exists>reread b r2.
            trace (snd (create_lock d doc (start w sch))) =
              CreateExcl (Some EEXIST) # reread @ [Unlink b, CreateExcl r2] \<and>
            (reread = [Exists False] \<or> reread = [Exists True, Read None] \<or>
             (\<exists>c. reread = [Exists True, Read (Some c)] \<and> parse_lock c = None) \<or>
             (\<exists>c winner. reread = [Exists True, Read (Some c), Probe (l_pid winner) False] \<and>
                 parse_lock c = Some winner)) \<and>
            fst (create_lock d doc (start w sch)) =
              (case r2 of None \<Rightarrow> Inr () | Some e \<Rightarrow> Inl (SystemError e)))"
proof -
  obtain s1 where w1: "writeFileSync_wx doc (start w sch) = (Some EEXIST, s1)"
    using assms by (cases "writeFileSync_wx doc (start w sch)") simp
  have t1: "trace s1 = [CreateExcl (Some EEXIST)]"
    using writeFileSync_wx_trace [of doc "start w sch"] w1 by (simp add: start_def)
  obtain win s2 where rl: "readLock s1 = (win, s2)"
    by (cases "readLock s1")
  show ?thesis
  proof (cases win)
    case None
    have cl: "create_lock d doc (start w sch) = retry_create doc s2"
      using w1 rl None by (simp add: create_lock_def)
    obtain b r2 where rt: "trace (snd (retry_create doc s2)) = trace s2 @ [Unlink b, CreateExcl r2]"
      "fst (retry_create doc s2) = (case r2 of None \<Rightarrow> Inr () | Some e \<Rightarrow> Inl (SystemError e))"
      using retry_create_trace [of doc s2] by blast
    have rr: "trace s2 = CreateExcl (Some EEXIST) # [Exists False]
       \<or> trace s2 = CreateExcl (Some EEXIST) # [Exists True, Read None]
       \<or> (\<exists>c. trace s2 = CreateExcl (Some EEXIST) # [Exists True, Read (Some c)] \<and> parse_lock c = None)"
      using readLock_trace [of s1] rl None t1 by auto
    show ?thesis
      apply (rule disjI2)
      using rr rt cl by auto
  next
    case (Some winner)
    obtain c where c: "trace s2 = [CreateExcl (Some EEXIST), Exists True, Read (Some c)]"
      "parse_lock c = Some winner"
      using readLock_trace [of s1] rl Some t1 by auto
    obtain live s3 where pr: "isProcessRunning (l_pid winner) s2 = (live, s3)"
      by (cases "isProcessRunning (l_pid winner) s2")
    have t3: "trace s3 = [CreateExcl (Some EEXIST), Exists True, Read (Some c), Probe (l_pid winner) live]"
      using isProcessRunning_trace [of "l_pid winner" s2] pr c by simp
    show ?thesis
    proof (cases live)
      case True
      have "create_lock d doc (start w sch) = (Inl (Error (just_locked_message d winner)), s3)"
        using w1 rl Some pr True by (simp add: create_lock_def)
      then show ?thesis
        using t3 True c by auto
    next
      case False
      have cl: "create_lock d doc (start w sch) = retry_create doc s3"
        using w1 rl Some pr False by (simp add: create_lock_def)
      obtain b r2 where rt: "trace (snd (retry_create doc s3)) = trace s3 @ [Unlink b, CreateExcl r2]"
        "fst (retry_create doc s3) = (case r2 of None \<Rightarrow> Inr () | Some e \<Rightarrow> Inl (SystemError e))"
        using retry_create_trace [of doc s3] by blast
      have "trace (snd (create_lock d doc (start w sch))) =
              CreateExcl (Some EEXIST) # [Exists True, Read (Some c), Probe (l_pid winner) False] @ [Unlink b, CreateExcl r2]"
        using cl rt t3 False by simp
      moreover have "fst (create_lock d doc (start w sch)) =
              (case r2 of None \<Rightarrow> Inr () | Some e \<Rightarrow> Inl (SystemError e))"
        using rt(2) cl by simp
      ultimately show ?thesis
        apply -
        apply (rule disjI2)
        apply (rule exI [of _ "[Exists True, Read (Some c), Probe (l_pid winner) False]"])
        apply (rule exI [of _ b])
        apply (rule exI [of _ r2])
        using c(2) by simp
    qed
  qed
qed


lemmas run_defs = acquireProfileLock_def create_lock_def retry_create_def readLock_def
  removeLock_def mkdirSync_def existsSync_def readFileSync_def unlinkSync_def writeFileSync_wx_def
  isProcessRunning_def console_log_def yield_def emit_def start_def lock_node_def Let_def

lemma parse_lock_doc:
  "parse_lock (lock_doc p) = Some \<lparr>l_pid = p, l_port = 9222, l_startedAt = Some (JStr ''2026-01-01T00:00:00Z'')\<rparr>"
  by (simp add: lock_doc_def lock_json_roundtrip)

text \<open>
  Claim C3. When the exclusive create fails because the file exists, the lock is read
  again and a live winner is reported by a conflict error naming it; otherwise the file is
  deleted and the create retried exactly once, and a second failure is to end in a
  conflict error. The code retries once and no more, but the second failure is no conflict
  error. Process 77 takes the lock just before the first create and is dead when probed;
  the live process 78 takes it just before the retry. The call ends with the bare
  \<open>EEXIST\<close> exception of the second create, which names no holder, although at that
  moment the lock file holds the valid record of 78 and 78 is running: the case for which
  the function promises an error with the details of the conflicting instance, and which
  the handler of the first create does report.
\<close>

theorem acquireProfileLock_second_failure:
  "fst (acquireProfileLock 1 ''2026-11-02T00:00:00Z'' ''/p'' 9224 (start (world_unlocked {78}) double_race))
     = Inl (SystemError EEXIST)
   \<and> \<not> conflict_error (SystemError EEXIST)
   \<and> trace (snd (acquireProfileLock 1 ''2026-11-02T00:00:00Z'' ''/p'' 9224
         (start (world_unlocked {78}) double_race)))
     = [Mkdir, Exists False, CreateExcl (Some EEXIST), Exists True, Read (Some (lock_doc 77)),
        Probe 77 False, Unlink True, CreateExcl (Some EEXIST)]
   \<and> lock_node (world (snd (acquireProfileLock 1 ''2026-11-02T00:00:00Z'' ''/p'' 9224
         (start (world_unlocked {78}) double_race)))) = Some (lock_doc 78)
   \<and> parse_lock (lock_doc 78) =
       Some \<lparr>l_pid = 78, l_port = 9222, l_startedAt = Some (JStr ''2026-01-01T00:00:00Z'')\<rparr>
   \<and> 78 \<in> procs (world (snd (acquireProfileLock 1 ''2026-11-02T00:00:00Z'' ''/p'' 9224
         (start (world_unlocked {78}) double_race))))"
  by (simp add: run_defs world_unlocked_def double_race_def takes_lock_def parse_lock_doc conflict_error_def)

section \<open>Profile lock: acquisition without interference\<close>

text \<open>
  Claim C1. If the lock file of the profile directory parses to a record whose pid is a
  running process, \<open>acquireProfileLock\<close> fails with an error whose message includes the
  pid, the port and the acquisition time of the holder; the world, and so the lock file,
  is as before, and the only system calls are the mkdir, the read of the lock and the
  probe of the pid.
\<close>

theorem acquireProfileLock_live_holder:
  assumes "lock_node w = Some c" and "parse_lock c = Some holder"
    and "l_startedAt holder = Some (JStr t)" and "l_pid holder \<in> procs w"
  shows "fst (acquireProfileLock self now d lp (start w [])) = Inl (Error (locked_message d holder))
    \<and> sublist (''PID '' @ show_int (l_pid holder)) (locked_message d holder)
    \<and> sublist (''port '' @ show_int (l_port holder)) (locked_message d holder)
    \<and> sublist (''started '' @ t) (locked_message d holder)
    \<and> world (snd (acquireProfileLock self now d lp (start w []))) = w
    \<and> trace (snd (acquireProfileLock self now d lp (start w []))) =
        [Mkdir, Exists True, Read (Some c), Probe (l_pid holder) True]"
proof -
  have "template (l_startedAt holder) = t"
    using assms(3) by (simp add: template_def)
  then show ?thesis
    using acquire_live [OF assms(1,2,4), of self now d lp]
      locked_message_parts [of holder d]
    by simp
qed

theorem acquireProfileLock_live_holder_witness:
  "fst (acquireProfileLock 1 ''2026-11-02T00:00:00Z'' ''/p'' 9224 (start (world_locked 4242 {4242}) []))
     = Inl (Error (''Profile directory '' @ dquote @ ''/p'' @ dquote @
         '' is locked by another instance (PID 4242, port 9222, started 2026-01-01T00:00:00Z). '' @
         ''Use a different --profile-dir or stop the other instance first.''))
   \<and> world (snd (acquireProfileLock 1 ''2026-11-02T00:00:00Z'' ''/p'' 9224
         (start (world_locked 4242 {4242}) []))) = world_locked 4242 {4242}"
proof -
  let ?h = "\<lparr>l_pid = 4242, l_port = 9222, l_startedAt = Some (JStr ''2026-01-01T00:00:00Z'')\<rparr>"
  have a: "lock_node (world_locked 4242 {4242}) = Some (lock_doc 4242)"
    by (simp add: lock_node_def world_locked_def)
  have b: "parse_lock (lock_doc 4242) = Some ?h"
    by (rule parse_lock_doc)
  have c: "l_startedAt ?h = Some (JStr ''2026-01-01T00:00:00Z'')"
    by simp
  have d: "l_pid ?h \<in> procs (world_locked 4242 {4242})"
    by (simp add: world_locked_def)
  have m: "locked_message ''/p'' ?h = ''Profile directory '' @ dquote @ ''/p'' @ dquote @
         '' is locked by another instance (PID 4242, port 9222, started 2026-01-01T00:00:00Z). '' @
         ''Use a different --profile-dir or stop the other instance first.''"
    by (simp add: locked_message_def template_def show_int_def show_nat.simps digit_char_def)
  show ?thesis
    using acquireProfileLock_live_holder [OF a b c d, of 1 "''2026-11-02T00:00:00Z''" "''/p''" 9224] m
    by simp
qed

text \<open>
  Claim C5. If the lock file parses to a record whose pid is not running and no other
  process interferes, \<open>acquireProfileLock\<close> succeeds: the stale record is unlinked and a
  new lock record with the pid of the caller, the given port and the current time is
  written, which \<open>readLock\<close> accepts and reads back field by field.
\<close>

theorem acquireProfileLock_replaces_stale:
  assumes "lock_node w = Some c" and "parse_lock c = Some holder" and "l_pid holder \<notin> procs w"
  shows "fst (acquireProfileLock self now d lp (start w [])) = Inr ()
    \<and> lock_node (world (snd (acquireProfileLock self now d lp (start w [])))) =
        Some (Doc (lock_json \<lparr>l_pid = self, l_port = lp, l_startedAt = Some (JStr now)\<rparr>))
    \<and> parse_lock (Doc (lock_json \<lparr>l_pid = self, l_port = lp, l_startedAt = Some (JStr now)\<rparr>)) =
        Some \<lparr>l_pid = self, l_port = lp, l_startedAt = Some (JStr now)\<rparr>
    \<and> procs (world (snd (acquireProfileLock self now d lp (start w [])))) = procs w
    \<and> trace (snd (acquireProfileLock self now d lp (start w []))) =
        [Mkdir, Exists True, Read (Some c), Probe (l_pid holder) False,
         ConsoleLog (stale_message holder), Unlink True, CreateExcl None]"
  using acquire_stale [OF assms, of self now d lp]
  by (simp add: lock_json_roundtrip lock_node_def)

theorem acquireProfileLock_replaces_stale_witness:
  "fst (acquireProfileLock 1 ''2026-11-02T00:00:00Z'' ''/p'' 9224 (start (world_locked 4242 {}) [])) = Inr ()
   \<and> lock_node (world (snd (acquireProfileLock 1 ''2026-11-02T00:00:00Z'' ''/p'' 9224
         (start (world_locked 4242 {}) [])))) =
       Some (Doc (JObj [(''pid'', JNum 1), (''port'', JNum 9224),
                        (''startedAt'', JStr ''2026-11-02T00:00:00Z'')]))"
proof -
  let ?h = "\<lparr>l_pid = 4242, l_port = 9222, l_startedAt = Some (JStr ''2026-01-01T00:00:00Z'')\<rparr>"
  have a: "lock_node (world_locked 4242 {}) = Some (lock_doc 4242)"
    by (simp add: lock_node_def world_locked_def)
  have b: "parse_lock (lock_doc 4242) = Some ?h"
    by (rule parse_lock_doc)
  have c: "l_pid ?h \<notin> procs (world_locked 4242 {})"
    by (simp add: world_locked_def)
  show ?thesis
    using acquireProfileLock_replaces_stale [OF a b c, of 1 "''2026-11-02T00:00:00Z''" "''/p''" 9224]
    by (simp add: lock_json_def)
qed

text \<open>
  Claim C10. If the lock file exists and does not parse to a valid lock record (text that
  is no JSON, or a document whose \<open>pid\<close> or \<open>port\<close> is no number) and no other process
  interferes, \<open>acquireProfileLock\<close> reports no conflict: \<open>readLock\<close> gives no record, the
  exclusive create fails with \<open>EEXIST\<close>, the second read gives no record either, the file
  is unlinked and the single retry of the create succeeds, leaving the new lock record.
\<close>

theorem acquireProfileLock_over_malformed:
  assumes "lock_node w = Some c" and "parse_lock c = None"
  shows "fst (readLock (start w [])) = None
    \<and> fst (acquireProfileLock self now d lp (start w [])) = Inr ()
    \<and> lock_node (world (snd (acquireProfileLock self now d lp (start w [])))) =
        Some (Doc (lock_json \<lparr>l_pid = self, l_port = lp, l_startedAt = Some (JStr now)\<rparr>))
    \<and> trace (snd (acquireProfileLock self now d lp (start w []))) =
        [Mkdir, Exists True, Read (Some c), CreateExcl (Some EEXIST),
         Exists True, Read (Some c), Unlink True, CreateExcl None]"
proof -
  have "fst (readLock (start w [])) = None"
    using assms readLock_quiet [of "start w []" c] by (simp add: start_def)
  then show ?thesis
    using acquire_malformed [OF assms, of self now d lp]
    by (simp add: lock_node_def)
qed

theorem acquireProfileLock_over_malformed_witness:
  "fst (acquireProfileLock 1 ''2026-11-02T00:00:00Z'' ''/p'' 9224 (start world_corrupt [])) = Inr ()
   \<and> lock_node (world (snd (acquireProfileLock 1 ''2026-11-02T00:00:00Z'' ''/p'' 9224
         (start world_corrupt [])))) =
       Some (Doc (JObj [(''pid'', JNum 1), (''port'', JNum 9224),
                        (''startedAt'', JStr ''2026-11-02T00:00:00Z'')]))"
proof -
  have a: "lock_node world_corrupt = Some Corrupt"
    by (simp add: lock_node_def world_corrupt_def)
  have b: "parse_lock Corrupt = None"
    by (simp add: parse_lock_def)
  show ?thesis
    using acquireProfileLock_over_malformed [OF a b, of 1 "''2026-11-02T00:00:00Z''" "''/p''" 9224]
    by (simp add: lock_json_def)
qed


section \<open>Instance registry: listing and cleaning\<close>

lemma entries_ensureDir [simp]: "entries (ensureDir m) = entries m"
  by (simp add: ensureDir_def entries_def)

lemma alive_ensureDir [simp]: "alive (ensureDir m) = alive m"
  by (simp add: ensureDir_def)

lemma number_of_ensureDir [simp]: "number_of (ensureDir m) = number_of m"
  by (simp add: ensureDir_def)

lemma kills_ensureDir [simp]: "kills (ensureDir m) = kills m"
  by (simp add: ensureDir_def)

lemma read_file_cong: "entries m = entries m' \<Longrightarrow> read_file f m = read_file f m'"
  by (simp add: read_file_def)

lemma collect_cong: "entries m = entries m' \<Longrightarrow> collect m fs = collect m' fs"
proof (induction fs)
  case Nil
  show ?case by simp
next
  case (Cons f fs)
  have r: "read_file f m = read_file f m'"
    using Cons.prems by (rule read_file_cong)
  have ih: "collect m fs = collect m' fs"
    using Cons by simp
  show ?case
    unfolding collect.simps r ih ..
qed

lemma collect_iff:
  "info \<in> set (collect m fs) \<longleftrightarrow>
     (\<exists>f \<in> set fs. endsWith f ''.json'' \<and> read_file f m = Inr (Doc info))"
  by (induction fs) (auto split: sum.splits contents.splits)

lemma read_file_entry:
  assumes "distinct (map fst (entries m))"
  shows "read_file f m = Inr c \<longleftrightarrow> (f, c) \<in> set (entries m)"
proof -
  have "map_of (entries m) f = Some c \<longleftrightarrow> (f, c) \<in> set (entries m)"
    using assms by (rule map_of_eq_Some_iff)
  moreover have "read_file f m = Inr c \<longleftrightarrow> map_of (entries m) f = Some c"
    by (simp add: read_file_def split: option.splits)
  ultimately show ?thesis by simp
qed

lemma records_iff:
  "distinct (map fst (entries m)) \<Longrightarrow>
   info \<in> set (records m) \<longleftrightarrow>
     (\<exists>f. (f, Doc info) \<in> set (entries m) \<and> endsWith f ''.json'')"
  by (force simp add: records_def collect_iff read_file_entry)

lemma compare_port_ok:
  "a \<noteq> JNull \<Longrightarrow> b \<noteq> JNull \<Longrightarrow> \<exists>d. compare_port a b = Inr d"
  by (cases a; cases b) (auto simp add: compare_port_def get_prop_def split: option.splits json.splits)

lemma insert_by_port_ok:
  "x \<noteq> JNull \<Longrightarrow> JNull \<notin> set ys \<Longrightarrow>
   \<exists>zs. insert_by_port x ys = Inr zs \<and> set zs = insert x (set ys)"
proof (induction ys)
  case Nil
  then show ?case by simp
next
  case (Cons y ys)
  obtain d where d: "compare_port x y = Inr d"
    using compare_port_ok [of x y] Cons.prems by auto
  obtain zs where zs: "insert_by_port x ys = Inr zs" "set zs = insert x (set ys)"
    using Cons by auto
  show ?case
    using d zs by auto
qed

lemma sort_by_port_ok:
  "JNull \<notin> set xs \<Longrightarrow> \<exists>ys. sort_by_port xs = Inr ys \<and> set ys = set xs"
proof (induction xs)
  case Nil
  then show ?case by simp
next
  case (Cons x xs)
  obtain ys where ys: "sort_by_port xs = Inr ys" "set ys = set xs"
    using Cons by auto
  obtain zs where zs: "insert_by_port x ys = Inr zs" "set zs = insert x (set ys)"
    using insert_by_port_ok [of x ys] Cons.prems ys by auto
  show ?case
    using ys zs by auto
qed

lemma record_file_doc:
  "record_file (f, Doc info) \<Longrightarrow>
   \<exists>q. get_prop info ''port'' = Inr (Some (JNum q)) \<and> f = instancePath (Some (JNum q))"
proof (cases "get_prop info ''port''")
  case (Inl e)
  then show "record_file (f, Doc info) \<Longrightarrow> ?thesis"
    by (simp add: record_file_def)
next
  case (Inr v)
  show "record_file (f, Doc info) \<Longrightarrow> ?thesis"
  proof (cases v)
    case None
    then show "record_file (f, Doc info) \<Longrightarrow> ?thesis"
      using Inr by (simp add: record_file_def)
  next
    case (Some j)
    then show "record_file (f, Doc info) \<Longrightarrow> ?thesis"
      using Inr by (cases j) (simp_all add: record_file_def)
  qed
qed

lemma registry_ok_entry:
  assumes "registry_ok m" and "(f, Doc info) \<in> set (entries m)" and "endsWith f ''.json''"
  shows "\<exists>q. get_prop info ''port'' = Inr (Some (JNum q)) \<and> f = instancePath (Some (JNum q))"
proof -
  have "\<not> endsWith (fst (f, Doc info)) ''.json'' \<or> record_file (f, Doc info)"
    using assms(1,2) unfolding registry_ok_def list_all_iff by blast
  then have "record_file (f, Doc info)"
    using assms(3) by simp
  then show ?thesis
    by (rule record_file_doc)
qed

lemma registry_ok_distinct: "registry_ok m \<Longrightarrow> distinct (map fst (entries m))"
  by (simp add: registry_ok_def)

lemma records_not_null: "registry_ok m \<Longrightarrow> JNull \<notin> set (records m)"
proof
  assume ok: "registry_ok m" and "JNull \<in> set (records m)"
  then obtain f where "(f, Doc JNull) \<in> set (entries m)" "endsWith f ''.json''"
    using records_iff [OF registry_ok_distinct] by blast
  then show False
    using registry_ok_entry [OF ok] by (fastforce simp add: get_prop_def)
qed

lemma listInstances_ok:
  assumes "registry_ok m"
  shows "\<exists>all. listInstances m = (Inr all, ensureDir m) \<and> set all = set (records m)"
proof -
  have "collect (ensureDir m) (map fst (entries m)) = records m"
    by (simp add: records_def collect_cong [of "ensureDir m" m])
  then show ?thesis
    using sort_by_port_ok [OF records_not_null [OF assms]]
    by (auto simp add: listInstances_def Let_def)
qed


lemma entries_registry: "entries (m\<lparr>registry := Some es\<rparr>) = es"
  by (simp add: entries_def)

lemma entries_kills [simp]: "entries (m\<lparr>kills := k\<rparr>) = entries m"
  by (simp add: entries_def)

lemma entries_unregister:
  "entries (unregisterInstance q m) = filter (\<lambda>e. fst e \<noteq> instancePath q) (entries m)"
proof (cases "map_of (entries m) (instancePath q)")
  case None
  then have "instancePath q \<notin> fst ` set (entries m)"
    by (simp add: map_of_eq_None_iff)
  then have "filter (\<lambda>e. fst e \<noteq> instancePath q) (entries m) = entries m"
    by (force simp add: filter_id_conv)
  then show ?thesis
    using None by (simp add: unregisterInstance_def unlink_file_def)
next
  case (Some c)
  have "AList.delete (instancePath q) (entries m) =
        filter (\<lambda>e. fst e \<noteq> instancePath q) (entries m)"
    unfolding AList.delete_eq by (rule filter_cong) auto
  moreover have "entries (unregisterInstance q m) = AList.delete (instancePath q) (entries m)"
    using Some by (simp add: unregisterInstance_def unlink_file_def entries_registry)
  ultimately show ?thesis by simp
qed

lemma unregister_keeps:
  "alive (unregisterInstance q m) = alive m"
  "kills (unregisterInstance q m) = kills m"
  "console (unregisterInstance q m) = console m"
  "exits_on (unregisterInstance q m) = exits_on m"
  "number_of (unregisterInstance q m) = number_of m"
  by (simp_all add: unregisterInstance_def unlink_file_def split: option.splits)

lemma pid_running_eq: "pid_running v m = (reachable m v, m\<lparr>kills := kills m @ [(v, Sig0)]\<rparr>)"
  by (simp add: pid_running_def process_kill_def reachable_def Let_def split: option.splits)

lemma reachable_cong:
  "alive m = alive m' \<Longrightarrow> number_of m = number_of m' \<Longrightarrow> reachable m v = reachable m' v"
  by (simp add: reachable_def split: option.splits)

lemma stale_cong: "alive m = alive m' \<Longrightarrow> number_of m = number_of m' \<Longrightarrow> stale m = stale m'"
  by (rule ext) (simp add: stale_def reachable_cong [of m m'] split: sum.splits)

lemma get_prop_not_null: "info \<noteq> JNull \<Longrightarrow> \<exists>v. get_prop info k = Inr v"
  by (cases info) (simp_all add: get_prop_def)

lemma clean_loop_result:
  "JNull \<notin> set all \<Longrightarrow>
   \<exists>m'. clean_loop all acc m = (Inr (acc @ filter (stale m) all), m') \<and>
        entries m' = filter (\<lambda>e. fst e \<notin> file_of ` set (filter (stale m) all)) (entries m) \<and>
        alive m' = alive m \<and> number_of m' = number_of m"
proof (induction all arbitrary: acc m)
  case Nil
  then show ?case by simp
next
  case (Cons info rest)
  have nn: "info \<noteq> JNull" and rest: "JNull \<notin> set rest"
    using Cons.prems by auto
  obtain p where p: "get_prop info ''pid'' = Inr p"
    using get_prop_not_null [OF nn] by blast
  obtain q where q: "get_prop info ''port'' = Inr q"
    using get_prop_not_null [OF nn] by blast
  let ?m0 = "m\<lparr>kills := kills m @ [(p, Sig0)]\<rparr>"
  have st0: "stale ?m0 = stale m"
    by (rule stale_cong) simp_all
  show ?case
  proof (cases "stale m info")
    case False
    then have run: "reachable m p"
      using p by (simp add: stale_def)
    have step: "clean_loop (info # rest) acc m = clean_loop rest acc ?m0"
      using p run by (simp add: pid_running_eq)
    show ?thesis
      unfolding step using Cons.IH [OF rest, of acc ?m0] False unfolding st0 by simp
  next
    case True
    then have dead: "\<not> reachable m p"
      using p by (simp add: stale_def)
    let ?m1 = "unregisterInstance q ?m0"
    have step: "clean_loop (info # rest) acc m = clean_loop rest (acc @ [info]) ?m1"
      using p q dead by (simp add: pid_running_eq)
    have st: "stale ?m1 = stale m"
      by (rule stale_cong) (simp_all add: unregister_keeps)
    have fo: "file_of info = instancePath q"
      using q by (simp add: file_of_def)
    obtain m' where m': "clean_loop rest (acc @ [info]) ?m1 = (Inr ((acc @ [info]) @ filter (stale m) rest), m')"
      "entries m' = filter (\<lambda>e. fst e \<notin> file_of ` set (filter (stale m) rest)) (entries ?m1)"
      "alive m' = alive m" "number_of m' = number_of m"
      using Cons.IH [OF rest, of "acc @ [info]" ?m1] unfolding st by (auto simp add: unregister_keeps)
    have "entries m' = filter (\<lambda>e. fst e \<notin> file_of ` set (filter (stale m) (info # rest))) (entries m)"
      unfolding m'(2) entries_unregister using True fo by (auto intro: filter_cong)
    then show ?thesis
      unfolding step using m' True by simp
  qed
qed

lemma stale_file_iff:
  assumes ok: "registry_ok m" and e: "e \<in> set (entries m)"
  shows "fst e \<in> file_of ` set (filter (stale m) (records m)) \<longleftrightarrow> stale_file m e"
proof
  assume "fst e \<in> file_of ` set (filter (stale m) (records m))"
  then obtain info where info: "info \<in> set (records m)" "stale m info" "fst e = file_of info"
    by auto
  obtain f where f: "(f, Doc info) \<in> set (entries m)" "endsWith f ''.json''"
    using info(1) records_iff [OF registry_ok_distinct [OF ok]] by blast
  obtain q where q: "get_prop info ''port'' = Inr (Some (JNum q))" "f = instancePath (Some (JNum q))"
    using registry_ok_entry [OF ok f] by blast
  have "f = fst e"
    using q info(3) by (simp add: file_of_def)
  then have "(fst e, Doc info) \<in> set (entries m)" "(fst e, snd e) \<in> set (entries m)"
    using f e by simp_all
  then have "snd e = Doc info"
    using registry_ok_distinct [OF ok] by (meson eq_key_imp_eq_value)
  then show "stale_file m e"
    using info(2) f(2) \<open>f = fst e\<close> by (simp add: stale_file_def)
next
  assume sf: "stale_file m e"
  then obtain info where info: "snd e = Doc info" "stale m info" "endsWith (fst e) ''.json''"
    by (cases "snd e") (auto simp add: stale_file_def)
  have mem: "(fst e, Doc info) \<in> set (entries m)"
    using e info(1) by (metis prod.collapse)
  then have r: "info \<in> set (records m)"
    using records_iff [OF registry_ok_distinct [OF ok]] info(3) by blast
  obtain q where q: "get_prop info ''port'' = Inr (Some (JNum q))" "fst e = instancePath (Some (JNum q))"
    using registry_ok_entry [OF ok mem info(3)] by blast
  have "fst e = file_of info"
    using q by (simp add: file_of_def)
  then show "fst e \<in> file_of ` set (filter (stale m) (records m))"
    using r info(2) by auto
qed

lemma registry_ok_filter:
  "registry_ok m \<Longrightarrow> entries m' = filter P (entries m) \<Longrightarrow> registry_ok m'"
  by (simp add: registry_ok_def list_all_iff distinct_map_filter)

lemma cleanStale_main:
  assumes ok: "registry_ok m"
  shows "\<exists>out m'. cleanStaleInstances m = (Inr out, m') \<and>
           set out = set (filter (stale m) (records m)) \<and>
           entries m' = filter (\<lambda>e. \<not> stale_file m e) (entries m) \<and>
           alive m' = alive m"
proof -
  obtain all where all: "listInstances m = (Inr all, ensureDir m)" "set all = set (records m)"
    using listInstances_ok [OF ok] by blast
  have nn: "JNull \<notin> set all"
    using all(2) records_not_null [OF ok] by simp
  have st: "stale (ensureDir m) = stale m"
    by (rule stale_cong) simp_all
  obtain m' where m': "clean_loop all [] (ensureDir m) = (Inr ([] @ filter (stale m) all), m')"
    "entries m' = filter (\<lambda>e. fst e \<notin> file_of ` set (filter (stale m) all)) (entries m)"
    "alive m' = alive m"
    using clean_loop_result [OF nn, of "[]" "ensureDir m"] unfolding st by auto
  have same: "set (filter (stale m) all) = set (filter (stale m) (records m))"
    using all(2) by auto
  have "entries m' = filter (\<lambda>e. \<not> stale_file m e) (entries m)"
    unfolding m'(2) same
  proof (rule filter_cong)
    show "entries m = entries m" ..
  next
    fix e assume "e \<in> set (entries m)"
    then show "(fst e \<notin> file_of ` set (filter (stale m) (records m))) = (\<not> stale_file m e)"
      using stale_file_iff [OF ok] by blast
  qed
  then show ?thesis
    using all(1) m' same by (simp add: cleanStaleInstances_def)
qed

lemma records_after_filter:
  assumes ok: "registry_ok m" and es: "entries m' = filter (\<lambda>e. \<not> stale_file m e) (entries m)"
  shows "set (records m') = set (filter (\<lambda>info. \<not> stale m info) (records m))"
proof -
  have ok': "registry_ok m'"
    using ok es by (rule registry_ok_filter)
  have "info \<in> set (records m') \<longleftrightarrow> info \<in> set (records m) \<and> \<not> stale m info" for info
    unfolding records_iff [OF registry_ok_distinct [OF ok']] records_iff [OF registry_ok_distinct [OF ok]] es
    by (auto simp add: stale_file_def)
  then show ?thesis by auto
qed

text \<open>
  On a registry directory kept as the program keeps it, \<open>cleanStaleInstances\<close> returns
  exactly the records whose pid is not running and deletes exactly their files.
\<close>

lemma cleanStaleInstances_on_kept_registry:
  assumes "registry_ok m"
  shows "\<exists>out m'. cleanStaleInstances m = (Inr out, m') \<and>
           set out = set (filter (stale m) (records m)) \<and>
           entries m' = filter (\<lambda>e. \<not> stale_file m e) (entries m) \<and>
           set (records m') = set (filter (\<lambda>info. \<not> stale m info) (records m)) \<and>
           alive m' = alive m \<and> registry_ok m'"
proof -
  obtain out m' where r: "cleanStaleInstances m = (Inr out, m')"
    "set out = set (filter (stale m) (records m))"
    "entries m' = filter (\<lambda>e. \<not> stale_file m e) (entries m)"
    "alive m' = alive m"
    using cleanStale_main [OF assms] by blast
  have "set (records m') = set (filter (\<lambda>info. \<not> stale m info) (records m))"
    using assms r(3) by (rule records_after_filter)
  moreover have "registry_ok m'"
    using assms r(3) by (rule registry_ok_filter)
  ultimately show ?thesis
    using r by blast
qed

lemma endsWith_json: "endsWith (instancePath v) ''.json''"
  unfolding endsWith_def instancePath_def suffix_def by blast

lemma instancePath_num: "instancePath (Some (JNum q)) = show_int q @ ''.json''"
  by (simp add: instancePath_def template_def)

lemma instancePath_inj:
  "instancePath (Some (JNum a)) = instancePath (Some (JNum b)) \<Longrightarrow> a = b"
  by (simp add: instancePath_num show_int_inj)

lemmas eval_defs = records_def read_file_def entries_def endsWith_def suffix_to_prefix
  stale_def stale_file_def reachable_def kill_target_def int32_def get_prop_def instance_json_def
  registry_ok_def record_file_def instancePath_num show_int_def show_nat.simps digit_char_def

lemma machine_ab_ok: "registry_ok machine_ab"
  by (simp add: machine_ab_def info_a_def info_b_def eval_defs)

section \<open>Instance registry: files that are no records of the program\<close>

text \<open>
  Claim C4. \<open>cleanStaleInstances\<close> is to delete exactly the registry records whose pid is
  not a running process and to return exactly those, leaving every other record in place.
  \<^verbatim>\<open>listInstances\<close> skips a file that does not parse, as its comment says, but casts
  whatever parses to a record without a check. With a stray file that holds \<^verbatim>\<open>null\<close>
  beside the stale record of port 9224, the comparator of the sort reads \<open>port\<close> of
  \<^verbatim>\<open>null\<close>: the call ends in a type error, returns nothing and deletes nothing, the stale
  record stays. With the stale record stored under the name \<open>copy.json\<close>, the record is
  returned as cleaned, the unlink goes to \<open>9224.json\<close>, and the file that holds the
  record stays.
\<close>

theorem cleanStaleInstances_foreign_files:
  "stale machine_null (instance_json info_b)
   \<and> records machine_null = [instance_json info_b, JNull]
   \<and> fst (cleanStaleInstances machine_null) = Inl TypeError
   \<and> entries (snd (cleanStaleInstances machine_null)) = entries machine_null
   \<and> stale machine_copy (instance_json info_b)
   \<and> fst (cleanStaleInstances machine_copy) = Inr [instance_json info_b]
   \<and> entries (snd (cleanStaleInstances machine_copy)) = [(''copy.json'', Doc (instance_json info_b))]"
proof -
  have r0: "records machine_null = [instance_json info_b, JNull]"
    by (simp add: machine_null_def records_def read_file_def entries_def endsWith_def suffix_to_prefix)
  have c0: "collect (ensureDir machine_null) (map fst (entries machine_null)) = records machine_null"
    by (simp add: records_def collect_cong [of "ensureDir machine_null" machine_null])
  have l0: "listInstances machine_null = (Inl TypeError, ensureDir machine_null)"
    by (simp add: listInstances_def Let_def c0 r0 compare_port_def get_prop_def instance_json_def)
  have a: "fst (cleanStaleInstances machine_null) = Inl TypeError"
    "entries (snd (cleanStaleInstances machine_null)) = entries machine_null"
    by (simp_all add: cleanStaleInstances_def l0)
  have s0: "stale machine_null (instance_json info_b)"
    by (simp add: machine_null_def info_b_def eval_defs)
  have r1: "records machine_copy = [instance_json info_b]"
    by (simp add: machine_copy_def records_def read_file_def entries_def endsWith_def suffix_to_prefix)
  have c1: "collect (ensureDir machine_copy) (map fst (entries machine_copy)) = records machine_copy"
    by (simp add: records_def collect_cong [of "ensureDir machine_copy" machine_copy])
  have l1: "listInstances machine_copy = (Inr [instance_json info_b], ensureDir machine_copy)"
    by (simp add: listInstances_def Let_def c1 r1)
  have s1: "stale machine_copy (instance_json info_b)"
    by (simp add: machine_copy_def info_b_def eval_defs)
  have p1: "get_prop (instance_json info_b) ''pid'' = Inr (Some (JNum 200))"
    "get_prop (instance_json info_b) ''port'' = Inr (Some (JNum 9224))"
    by (simp_all add: instance_json_def info_b_def get_prop_def)
  have dead: "\<not> reachable (ensureDir machine_copy) (Some (JNum 200))"
    by (simp add: reachable_def kill_target_def int32_def machine_copy_def ensureDir_def)
  have e1: "entries machine_copy = [(''copy.json'', Doc (instance_json info_b))]"
    by (simp add: machine_copy_def entries_def)
  have n1: "instancePath (Some (JNum 9224)) = ''9224.json''"
    by (simp add: instancePath_num show_int_def show_nat.simps digit_char_def)
  have b: "fst (cleanStaleInstances machine_copy) = Inr [instance_json info_b]"
    "entries (snd (cleanStaleInstances machine_copy)) = [(''copy.json'', Doc (instance_json info_b))]"
    using dead by (simp_all add: cleanStaleInstances_def l1 p1 pid_running_eq entries_unregister e1 n1)
  show ?thesis
    using r0 a s0 s1 b by simp
qed

section \<open>Instance registry: register, then list\<close>

lemma set_update_subset: "set (AList.update k v es) \<subseteq> insert (k, v) (set es)"
  by (induction es) auto

lemma registerInstance_result:
  "registerInstance info m =
     (Inr (), m\<lparr>registry := Some (AList.update (instancePath (Some (JNum (i_port info))))
                                 (Doc (instance_json info)) (entries m))\<rparr>)"
  by (simp add: registerInstance_def write_file_def ensureDir_def)

lemma instance_json_port:
  "get_prop (instance_json info) ''port'' = Inr (Some (JNum (i_port info)))"
  by (simp add: instance_json_def get_prop_def)

lemma registerInstance_ok:
  assumes "registry_ok m"
  shows "registry_ok (snd (registerInstance info m))"
proof -
  let ?k = "instancePath (Some (JNum (i_port info)))"
  let ?v = "Doc (instance_json info)"
  have new: "record_file (?k, ?v)"
    by (simp add: record_file_def instance_json_port)
  have old: "\<forall>e \<in> set (entries m). \<not> endsWith (fst e) ''.json'' \<or> record_file e"
    using assms by (simp add: registry_ok_def list_all_iff)
  have "\<forall>e \<in> set (AList.update ?k ?v (entries m)). \<not> endsWith (fst e) ''.json'' \<or> record_file e"
    using set_update_subset [of ?k ?v "entries m"] new old by auto
  moreover have "distinct (map fst (AList.update ?k ?v (entries m)))"
    using assms by (simp add: registry_ok_def distinct_update)
  ultimately show ?thesis
    by (simp add: registerInstance_result registry_ok_def list_all_iff entries_registry)
qed

lemma registered_record:
  assumes "registry_ok m"
  shows "instance_json info \<in> set (records (snd (registerInstance info m)))"
proof -
  let ?k = "instancePath (Some (JNum (i_port info)))"
  let ?v = "Doc (instance_json info)"
  let ?m1 = "snd (registerInstance info m)"
  have es: "entries ?m1 = AList.update ?k ?v (entries m)"
    by (simp add: registerInstance_result entries_registry)
  have d: "distinct (map fst (entries ?m1))"
    using registerInstance_ok [OF assms] by (rule registry_ok_distinct)
  have "map_of (entries ?m1) ?k = Some ?v"
    unfolding es by (simp add: update_conv')
  then have "(?k, ?v) \<in> set (entries ?m1)"
    by (rule map_of_SomeD)
  then show ?thesis
    unfolding records_iff [OF d] using endsWith_json by blast
qed

text \<open>
  On a registry directory kept as the program keeps it, the document written by
  \<open>registerInstance\<close> is among the results of the \<open>listInstances\<close> that follows.
\<close>

lemma register_then_list_on_kept_registry:
  assumes "registry_ok m"
  shows "fst (registerInstance info m) = Inr ()
    \<and> (\<exists>results. fst (listInstances (snd (registerInstance info m))) = Inr results \<and>
          instance_json info \<in> set results)
    \<and> registry_ok (snd (registerInstance info m))"
proof -
  let ?m1 = "snd (registerInstance info m)"
  have ok1: "registry_ok ?m1"
    using assms by (rule registerInstance_ok)
  obtain all where all: "listInstances ?m1 = (Inr all, ensureDir ?m1)" "set all = set (records ?m1)"
    using listInstances_ok [OF ok1] by blast
  have lst: "\<exists>results. fst (listInstances ?m1) = Inr results \<and> instance_json info \<in> set results"
    using all registered_record [OF assms, of info] by auto
  show ?thesis
    using lst ok1 by (simp add: registerInstance_result)
qed

text \<open>
  Claim C7. Right after \<open>registerInstance info\<close>, \<open>listInstances\<close> is to return a list
  that contains a record equal to \<open>info\<close>. In a directory with a stray file that holds
  \<^verbatim>\<open>null\<close>, the registration succeeds and the listing that follows returns no list: the
  comparator of the sort reads \<open>port\<close> of \<^verbatim>\<open>null\<close> and the type error leaves
  \<^verbatim>\<open>listInstances\<close>, which promises to skip a corrupt file.
\<close>

theorem register_then_list_stray_null:
  "fst (registerInstance info_c machine_null) = Inr ()
   \<and> records (snd (registerInstance info_c machine_null)) =
       [instance_json info_b, JNull, instance_json info_c]
   \<and> fst (listInstances (snd (registerInstance info_c machine_null))) = Inl TypeError"
proof -
  let ?m1 = "snd (registerInstance info_c machine_null)"
  have n: "instancePath (Some (JNum 9226)) = ''9226.json''"
    by (simp add: instancePath_num show_int_def show_nat.simps digit_char_def)
  have e: "entries ?m1 = [(''9224.json'', Doc (instance_json info_b)), (''stray.json'', Doc JNull),
                          (''9226.json'', Doc (instance_json info_c))]"
    by (simp add: registerInstance_result entries_registry info_c_def n)
       (simp add: machine_null_def entries_def instance_json_def)
  have r: "records ?m1 = [instance_json info_b, JNull, instance_json info_c]"
    unfolding records_def e by (simp add: read_file_def e endsWith_def suffix_to_prefix)
  have c: "collect (ensureDir ?m1) (map fst (entries ?m1)) = records ?m1"
    by (simp add: records_def collect_cong [of "ensureDir ?m1" ?m1])
  have "fst (listInstances ?m1) = Inl TypeError"
    by (simp add: listInstances_def Let_def c r compare_port_def get_prop_def instance_json_def)
  then show ?thesis
    using r by (simp add: registerInstance_result)
qed

section \<open>Stopping an instance whose owner is dead\<close>

lemma sendSignal_reached:
  "kill_target (number_of m) v = Some c \<Longrightarrow> c \<in> alive m \<Longrightarrow>
   sendSignal v SIGKILL m =
     (True, m\<lparr>kills := kills m @ [(v, SIGKILL)],
              alive := (if exits_on m c SIGKILL then alive m - {c} else alive m)\<rparr>)"
  by (simp add: sendSignal_def process_kill_def Let_def)

text \<open>
  Claim C6. For a registered port whose record has an owner pid that is not a running
  process and a child pid \<open>chromePid\<close> that is one, \<open>stopInstance\<close> calls
  \<^verbatim>\<open>process.kill\<close> three times: the existence test (signal 0) on the owner, the existence
  test on the child, and \<open>SIGKILL\<close> on the child. So the child is sent \<open>SIGKILL\<close> and the
  owner is sent no signal. The file of that port and nothing else is deleted from the
  registry, and the result is success with the already-stopped message.
\<close>

theorem stopInstance_dead_owner:
  assumes "read_file (instancePath (Some (JNum p))) m = Inr (Doc (JObj props))"
    and "\<not> reachable m (map_of props ''pid'')"
    and "truthy_val (map_of props ''chromePid'')"
    and "kill_target (number_of m) (map_of props ''chromePid'') = Some c"
    and "c \<in> alive m"
  shows "fst (stopInstance p m) =
           \<lparr>s_port = p, success = True,
            message = ''Instance on port '' @ show_int p @ '' was already stopped (cleaned registry)''\<rparr>
    \<and> kills (snd (stopInstance p m)) =
        kills m @ [(map_of props ''pid'', Sig0), (map_of props ''chromePid'', Sig0),
                   (map_of props ''chromePid'', SIGKILL)]
    \<and> alive (snd (stopInstance p m)) = (if exits_on m c SIGKILL then alive m - {c} else alive m)
    \<and> read_file (instancePath (Some (JNum p))) (snd (stopInstance p m)) = Inl ENOENT
    \<and> entries (snd (stopInstance p m)) =
        filter (\<lambda>e. fst e \<noteq> instancePath (Some (JNum p))) (entries m)"
proof -
  let ?owner = "map_of props ''pid''"
  let ?chrome = "map_of props ''chromePid''"
  have gi: "getInstance p m = JObj props"
    using assms(1) by (simp add: getInstance_def)
  let ?m1 = "m\<lparr>kills := kills m @ [(?owner, Sig0)]\<rparr>"
  let ?m2 = "m\<lparr>kills := kills m @ [(?owner, Sig0), (?chrome, Sig0)]\<rparr>"
  let ?m3 = "m\<lparr>kills := kills m @ [(?owner, Sig0), (?chrome, Sig0), (?chrome, SIGKILL)],
               alive := (if exits_on m c SIGKILL then alive m - {c} else alive m)\<rparr>"
  let ?m4 = "say (''Killed orphaned Chrome process (PID '' @ template ?chrome @ '') for port '' @ show_int p) ?m3"
  have reach: "reachable ?m1 ?chrome"
    using assms(4,5) by (simp add: reachable_def)
  have tr: "truthy_and_running ?chrome ?m1 = (True, ?m2)"
    using assms(3) reach by (simp add: truthy_and_running_def pid_running_eq)
  have ss: "sendSignal ?chrome SIGKILL ?m2 = (True, ?m3)"
    using sendSignal_reached [of ?m2 ?chrome c] assms(4,5) by simp
  have dead: "stop_dead p ?chrome ?m1 =
      (\<lparr>s_port = p, success = True,
        message = ''Instance on port '' @ show_int p @ '' was already stopped (cleaned registry)''\<rparr>,
       unregisterInstance (Some (JNum p)) ?m4)"
    by (simp add: stop_dead_def tr ss Let_def del: split_paired_All)
  have run: "stopInstance p m =
      (\<lparr>s_port = p, success = True,
        message = ''Instance on port '' @ show_int p @ '' was already stopped (cleaned registry)''\<rparr>,
       unregisterInstance (Some (JNum p)) ?m4)"
    using assms(2) dead
    by (simp add: stopInstance_def gi truthy_def get_prop_def Let_def pid_running_eq)
  have e4: "entries ?m4 = entries m"
    by (simp add: say_def entries_def)
  have k4: "kills ?m4 = kills m @ [(?owner, Sig0), (?chrome, Sig0), (?chrome, SIGKILL)]"
    by (simp add: say_def)
  have a4: "alive ?m4 = (if exits_on m c SIGKILL then alive m - {c} else alive m)"
    by (simp add: say_def)
  have ent: "entries (unregisterInstance (Some (JNum p)) ?m4) =
      filter (\<lambda>e. fst e \<noteq> instancePath (Some (JNum p))) (entries m)"
    unfolding entries_unregister e4 ..
  have "map_of (filter (\<lambda>e. fst e \<noteq> instancePath (Some (JNum p))) (entries m))
          (instancePath (Some (JNum p))) = None"
    by (simp add: map_of_eq_None_iff image_iff)
  then have gone: "read_file (instancePath (Some (JNum p))) (unregisterInstance (Some (JNum p)) ?m4) = Inl ENOENT"
    unfolding read_file_def ent by simp
  show ?thesis
    unfolding run using ent gone k4 a4 by (simp add: unregister_keeps)
qed

theorem stopInstance_dead_owner_witness:
  "fst (stopInstance 9224 machine_ab) =
     \<lparr>s_port = 9224, success = True,
      message = ''Instance on port 9224 was already stopped (cleaned registry)''\<rparr>
   \<and> kills (snd (stopInstance 9224 machine_ab)) =
       [(Some (JNum 200), Sig0), (Some (JNum 201), Sig0), (Some (JNum 201), SIGKILL)]
   \<and> alive (snd (stopInstance 9224 machine_ab)) = {100, 101}
   \<and> read_file ''9224.json'' (snd (stopInstance 9224 machine_ab)) = Inl ENOENT"
proof -
  let ?props = "[(''pid'', JNum 200), (''port'', JNum 9224), (''cdpPort'', JNum 9225),
       (''mode'', JStr ''relay''), (''label'', JStr ''b''), (''headless'', JBool False),
       (''startedAt'', JStr ''2026-01-02T00:00:00Z''), (''profileDir'', JStr ''/profiles/b''),
       (''chromePid'', JNum 201)]"
  have n: "instancePath (Some (JNum 9224)) = ''9224.json''"
    by (simp add: instancePath_num show_int_def show_nat.simps digit_char_def)
  have a: "read_file (instancePath (Some (JNum 9224))) machine_ab = Inr (Doc (JObj ?props))"
    unfolding n by (simp add: read_file_def entries_def machine_ab_def instance_json_def info_b_def)
  have b: "\<not> reachable machine_ab (map_of ?props ''pid'')"
    by (simp add: reachable_def kill_target_def int32_def machine_ab_def)
  have c: "truthy_val (map_of ?props ''chromePid'')"
    by (simp add: truthy_val_def truthy_def)
  have d: "kill_target (number_of machine_ab) (map_of ?props ''chromePid'') = Some 201"
    by (simp add: kill_target_def int32_def)
  have e: "201 \<in> alive machine_ab"
    by (simp add: machine_ab_def)
  have s: "show_int 9224 = ''9224''"
    by (simp add: show_int_def show_nat.simps digit_char_def)
  have x: "alive machine_ab - {201} = {100, 101}" "exits_on machine_ab 201 SIGKILL" "kills machine_ab = []"
    by (auto simp add: machine_ab_def)
  show ?thesis
    using stopInstance_dead_owner [OF a b c d e] n s x
    by simp
qed

end
